theory Spec2Isabelle
  imports Main
begin

section \<open>Python text primitives\<close>

text \<open>
  Text is modelled as the list of its bytes (\<open>string\<close>). FASTA and VCF files are ASCII,
  where one character is one byte, so \<open>length\<close> is Python's \<open>len\<close> and encoding a line
  before feeding it to the digest is the identity.
\<close>

abbreviation LF :: char where "LF \<equiv> CHR 0x0A"
abbreviation CR :: char where "CR \<equiv> CHR 0x0D"

text \<open>\<open>str.isspace\<close> on one ASCII character.\<close>

definition isspace :: "char \<Rightarrow> bool" where
  "isspace c = (c \<in> set [CHR 0x09, CHR 0x0A, CHR 0x0B, CHR 0x0C, CHR 0x0D,
                           CHR 0x1C, CHR 0x1D, CHR 0x1E, CHR 0x1F, CHR 0x20])"

text \<open>\<open>s.strip()\<close>: whitespace removed at both ends.\<close>

definition py_strip :: "string \<Rightarrow> string" where
  "py_strip s = rev (dropWhile isspace (rev (dropWhile isspace s)))"

definition startswith :: "string \<Rightarrow> string \<Rightarrow> bool" where
  "startswith s p = (take (length p) s = p)"

definition endswith :: "string \<Rightarrow> string \<Rightarrow> bool" where
  "endswith s p = (length p \<le> length s \<and> drop (length s - length p) s = p)"

text \<open>\<open>sep.join(xs)\<close>.\<close>

fun join :: "string \<Rightarrow> string list \<Rightarrow> string" where
  "join sep [] = []"
| "join sep [x] = x"
| "join sep (x # y # ys) = x @ sep @ join sep (y # ys)"

text \<open>\<open>s.split('\n')\<close>: the pieces between line feeds; the empty text gives one empty piece.\<close>

fun split_nl :: "string \<Rightarrow> string list" where
  "split_nl [] = [[]]"
| "split_nl (c # cs) =
     (if c = LF then [] # split_nl cs
      else (case split_nl cs of [] \<Rightarrow> [[c]] | l # ls \<Rightarrow> (c # l) # ls))"

text \<open>
  A file opened with \<open>open(path, 'r')\<close> is read with universal newlines: \<open>\r\n\<close> and a
  lone \<open>\r\<close> both arrive as \<open>\n\<close>.
\<close>

fun universal_newlines :: "string \<Rightarrow> string" where
  "universal_newlines [] = []"
| "universal_newlines [c] = [if c = CR then LF else c]"
| "universal_newlines (c # d # cs) =
     (if c = CR \<and> d = LF then LF # universal_newlines cs
      else (if c = CR then LF else c) # universal_newlines (d # cs))"

text \<open>
  \<open>for line in f\<close>: every line keeps its final line feed; the last line has none when
  the text does not end with one.
\<close>

fun keep_lines :: "string \<Rightarrow> string list" where
  "keep_lines [] = []"
| "keep_lines (c # cs) =
     (if c = LF then [LF] # keep_lines cs
      else (case keep_lines cs of [] \<Rightarrow> [[c]] | l # ls \<Rightarrow> (c # l) # ls))"

definition file_lines :: "string \<Rightarrow> string list" where
  "file_lines content = keep_lines (universal_newlines content)"

text \<open>
  Numbers in formatted text: \<open>str(n)\<close>, the format \<open>{n:,}\<close> with a comma between
  groups of three digits, and \<open>{n:+,}\<close> which always writes the sign.
\<close>

fun digits :: "nat \<Rightarrow> string" where
  "digits n = (if n < 10 then [''0123456789'' ! n]
               else digits (n div 10) @ [''0123456789'' ! (n mod 10)])"

declare digits.simps [simp del]

fun group3 :: "string \<Rightarrow> string" where
  "group3 (a # b # c # d # rest) = a # b # c # CHR '','' # group3 (d # rest)"
| "group3 ds = ds"

definition str_int :: "int \<Rightarrow> string" where
  "str_int i = (if i < 0 then ''-'' else []) @ digits (nat \<bar>i\<bar>)"

definition fmt_commas :: "int \<Rightarrow> string" where
  "fmt_commas i = (if i < 0 then ''-'' else []) @ rev (group3 (rev (digits (nat \<bar>i\<bar>))))"

definition fmt_signed_commas :: "int \<Rightarrow> string" where
  "fmt_signed_commas i =
     (if i < 0 then ''-'' else ''+'') @ rev (group3 (rev (digits (nat \<bar>i\<bar>))))"

section \<open>Exceptions, the environment and the file system\<close>

type_synonym path = string

text \<open>
  The exceptions the pipeline can meet. \<open>CalledProcessError\<close> carries the command, the
  exit status and the captured standard output and standard error (\<open>None\<close> when the
  stream was not captured).
\<close>

datatype exn =
    FileNotFoundError string
  | CalledProcessError "string list" int "string option" "string option"
  | RuntimeError string

text \<open>
  What an external process does: the executable is not found, or it exits with a status,
  its standard output and standard error, and leaves the file system changed.
\<close>

datatype outcome =
    NotFound
  | Exited int string string "path \<rightharpoonup> string"

text \<open>
  The environment of a run, given as parameters: the external tools (opaque
  collaborators), \<open>hashlib\<close>'s MD5 as the hexadecimal digest of the bytes fed to it, the
  text of the clock at the k-th log call, and Python's \<open>str\<close> of a library exception.
\<close>

record env =
  tools :: "string list \<Rightarrow> (path \<rightharpoonup> string) \<Rightarrow> outcome"
  md5_hexdigest :: "string \<Rightarrow> string"
  clock :: "nat \<Rightarrow> string"
  exn_text :: "exn \<Rightarrow> string"

section \<open>Sequence statistics: \<open>get_file_stats\<close>\<close>

record file_stats =
  num_sequences :: int
  total_length :: int
  md5 :: "string option"

text \<open>
  The loop over the lines of the file. \<open>fed\<close> is what has been passed to
  \<open>md5_hash.update\<close> so far, \<open>current_seq\<close> the stripped residue lines since the last
  header.
\<close>

fun scan_lines :: "string list \<Rightarrow> file_stats \<Rightarrow> string \<Rightarrow> string list
    \<Rightarrow> file_stats \<times> string \<times> string list" where
  "scan_lines [] stats fed current_seq = (stats, fed, current_seq)"
| "scan_lines (line # rest) stats fed current_seq =
     (if startswith (py_strip line) ''>'' then
        (if current_seq \<noteq> [] then
           scan_lines rest
             (stats\<lparr>total_length := total_length stats + int (length (concat current_seq)),
                    num_sequences := num_sequences stats + 1\<rparr>)
             (fed @ line) []
         else
           scan_lines rest (stats\<lparr>num_sequences := num_sequences stats + 1\<rparr>)
             (fed @ line) current_seq)
      else scan_lines rest stats (fed @ line) (current_seq @ [py_strip line]))"

definition get_file_stats :: "env \<Rightarrow> (path \<rightharpoonup> string) \<Rightarrow> path \<Rightarrow> exn + file_stats" where
  "get_file_stats E fs filepath =
     (case fs filepath of
        None \<Rightarrow> Inl (FileNotFoundError filepath)
      | Some content \<Rightarrow>
          (case scan_lines (file_lines content)
                  \<lparr>num_sequences = 0, total_length = 0, md5 = None\<rparr> [] [] of
             (stats, fed, current_seq) \<Rightarrow>
               Inr ((if current_seq \<noteq> []
                     then stats\<lparr>total_length :=
                            total_length stats + int (length (concat current_seq))\<rparr>
                     else stats)\<lparr>md5 := Some (md5_hexdigest E fed)\<rparr>)))"


section \<open>The pipeline object, logging and external processes\<close>

text \<open>
  The state of a \<open>VCFtoFASTAPipeline\<close> together with the world it acts on: its four
  fields, the file system (one flat name space, a path mapped to the content of its file;
  writing always succeeds), the messages passed to \<open>log\<close> so far, and the external
  processes spawned so far with their exit status (\<open>None\<close>: the executable was not
  found). The last two are the trace of the run.
\<close>

record pipeline =
  fasta_path :: path
  vcf_path :: path
  output_path :: path
  log_file :: path
  files :: "path \<rightharpoonup> string"
  messages :: "string list"
  spawned :: "(string list \<times> int option) list"

text \<open>
  \<open>__init__\<close>: \<open>stamp\<close> is the text of the clock used for the default log name.
\<close>

definition init :: "path \<Rightarrow> path \<Rightarrow> path \<Rightarrow> path option \<Rightarrow> string \<Rightarrow> (path \<rightharpoonup> string)
    \<Rightarrow> exn + pipeline" where
  "init fasta vcf output logf stamp fs =
     (let lf = (case logf of
                  None \<Rightarrow> ''pipeline_'' @ stamp @ ''.log''
                | Some l \<Rightarrow> if l \<noteq> [] then l else ''pipeline_'' @ stamp @ ''.log'') in
      if fs fasta = None then Inl (FileNotFoundError (''FASTA file not found: '' @ fasta))
      else if fs vcf = None then Inl (FileNotFoundError (''VCF file not found: '' @ vcf))
      else Inr \<lparr>fasta_path = fasta, vcf_path = vcf, output_path = output, log_file = lf,
                files = fs, messages = [], spawned = []\<rparr>)"

text \<open>
  \<open>log\<close> prints the stamped message and appends it, with a line feed, to the log file
  (created when absent). The printed line is the appended one, so the console is not kept
  apart from \<open>messages\<close>.
\<close>

definition log :: "env \<Rightarrow> string \<Rightarrow> pipeline \<Rightarrow> pipeline" where
  "log E message st =
     (let log_msg = ''['' @ clock E (length (messages st)) @ ''] '' @ message in
      st\<lparr>messages := messages st @ [message],
         files := (files st)(log_file st \<mapsto>
                    (case files st (log_file st) of None \<Rightarrow> [] | Some old \<Rightarrow> old)
                    @ log_msg @ [LF])\<rparr>)"

text \<open>
  \<open>subprocess.run(cmd, stdout=PIPE, ...)\<close>: the result is the exit status with the
  captured output and error text, or \<open>None\<close> when the executable does not exist.
\<close>

definition spawn :: "env \<Rightarrow> string list \<Rightarrow> pipeline
    \<Rightarrow> (int \<times> string \<times> string) option \<times> pipeline" where
  "spawn E cmd st =
     (case tools E cmd (files st) of
        NotFound \<Rightarrow> (None, st\<lparr>spawned := spawned st @ [(cmd, None)]\<rparr>)
      | Exited rc out err files' \<Rightarrow>
          (Some (rc, out, err),
           st\<lparr>files := files', spawned := spawned st @ [(cmd, Some rc)]\<rparr>))"

text \<open>
  \<open>with open(target, 'w') as f: subprocess.run(cmd, stdout=f, ...)\<close>: the target is
  created or truncated first, the process runs, and what it wrote to its standard output
  is the content of the target.
\<close>

definition spawn_into :: "env \<Rightarrow> string list \<Rightarrow> path \<Rightarrow> pipeline
    \<Rightarrow> (int \<times> string) option \<times> pipeline" where
  "spawn_into E cmd target st =
     (case tools E cmd ((files st)(target \<mapsto> [])) of
        NotFound \<Rightarrow>
          (None, st\<lparr>files := (files st)(target \<mapsto> []),
                     spawned := spawned st @ [(cmd, None)]\<rparr>)
      | Exited rc out err files' \<Rightarrow>
          (Some (rc, err),
           st\<lparr>files := files'(target \<mapsto> out), spawned := spawned st @ [(cmd, Some rc)]\<rparr>))"

definition program :: "string list \<Rightarrow> string" where
  "program cmd = (case cmd of [] \<Rightarrow> [] | c # _ \<Rightarrow> c)"

section \<open>\<open>run_command\<close>\<close>

datatype completed = CompletedProcess "string list" int string string

definition run_command :: "env \<Rightarrow> string list \<Rightarrow> string \<Rightarrow> pipeline
    \<Rightarrow> (exn + completed) \<times> pipeline" where
  "run_command E cmd description st =
     (case spawn E cmd (log E (''Command: '' @ join '' '' cmd)
                         (log E (''Running: '' @ description) st)) of
        (None, st') \<Rightarrow> (Inl (FileNotFoundError (program cmd)), st')
      | (Some (rc, out, err), st') \<Rightarrow>
          if rc = 0 then
            (Inr (CompletedProcess cmd rc out err),
             if out \<noteq> [] then log E (''Output: '' @ out) st' else st')
          else
            (Inl (CalledProcessError cmd rc (Some out) (Some err)),
             log E (''Error message: '' @ err)
               (log E (''ERROR: '' @ description @ '' failed'') st')))"

section \<open>\<open>check_dependencies\<close>\<close>

definition check_mark :: string where
  "check_mark = [CHR 0xE2, CHR 0x9C, CHR 0x93]"

definition cross_mark :: string where
  "cross_mark = [CHR 0xE2, CHR 0x9C, CHR 0x97]"

definition required_tools :: "string list" where
  "required_tools = [''bcftools'', ''samtools'', ''bgzip'', ''tabix'']"

text \<open>The loop over the required tools; a tool that is absent or exits non-zero is missing.\<close>

fun probe_tools :: "env \<Rightarrow> string list \<Rightarrow> string list \<Rightarrow> pipeline
    \<Rightarrow> string list \<times> pipeline" where
  "probe_tools E [] missing_tools st = (missing_tools, st)"
| "probe_tools E (tool # rest) missing_tools st =
     (case spawn E [tool, ''--version''] st of
        (Some (rc, out, err), st') \<Rightarrow>
          if rc = 0 then
            probe_tools E rest missing_tools (log E (check_mark @ '' '' @ tool @ '' found'') st')
          else
            probe_tools E rest (missing_tools @ [tool])
              (log E (cross_mark @ '' '' @ tool @ '' NOT found'') st')
      | (None, st') \<Rightarrow>
          probe_tools E rest (missing_tools @ [tool])
            (log E (cross_mark @ '' '' @ tool @ '' NOT found'') st'))"

definition check_dependencies :: "env \<Rightarrow> pipeline \<Rightarrow> (exn + unit) \<times> pipeline" where
  "check_dependencies E st =
     (case probe_tools E required_tools [] (log E ''Checking dependencies...'' st) of
        (missing_tools, st') \<Rightarrow>
          if missing_tools \<noteq> [] then
            (Inl (RuntimeError
                   (''Missing required tools: '' @ join '', '' missing_tools @ [LF] @
                    ''Install with: conda install -c bioconda bcftools samtools htslib'')),
             st')
          else (Inr (), st'))"

section \<open>\<open>index_fasta\<close> and \<open>compress_and_index_vcf\<close>\<close>

definition index_fasta :: "env \<Rightarrow> pipeline \<Rightarrow> (exn + unit) \<times> pipeline" where
  "index_fasta E st =
     (let fai_path = fasta_path st @ ''.fai'' in
      if files st fai_path \<noteq> None then
        (Inr (), log E (''FASTA index already exists: '' @ fai_path) st)
      else
        (case run_command E [''samtools'', ''faidx'', fasta_path st] ''FASTA indexing''
                (log E ''Indexing FASTA file...'' st) of
           (Inl e, st') \<Rightarrow> (Inl e, st')
         | (Inr r, st') \<Rightarrow> (Inr (), st')))"

text \<open>The first half of \<open>compress_and_index_vcf\<close>: the path of the compressed file.\<close>

definition compress_vcf :: "env \<Rightarrow> pipeline \<Rightarrow> (exn + path) \<times> pipeline" where
  "compress_vcf E st =
     (if endswith (vcf_path st) ''.gz'' then
        (Inr (vcf_path st), log E (''VCF is already compressed: '' @ vcf_path st) st)
      else
        (let compressed_vcf = vcf_path st @ ''.gz'' in
         if files st compressed_vcf \<noteq> None then
           (Inr compressed_vcf,
            log E (''Compressed VCF already exists: '' @ compressed_vcf) st)
         else
           (case spawn_into E [''bgzip'', ''-c'', vcf_path st] compressed_vcf
                   (log E (''Command: bgzip -c '' @ vcf_path st @ '' > '' @ compressed_vcf)
                     (log E ''Compressing VCF file...'' st)) of
              (None, st') \<Rightarrow> (Inl (FileNotFoundError ''bgzip''), st')
            | (Some (rc, err), st') \<Rightarrow>
                if rc = 0 then
                  (Inr compressed_vcf,
                   log E ''VCF compressed successfully''
                     (if err \<noteq> [] \<and> py_strip err \<noteq> []
                      then log E (''bgzip stderr: '' @ err) st' else st'))
                else
                  (Inl (CalledProcessError [''bgzip'', ''-c'', vcf_path st] rc None (Some err)),
                   log E (''Error message: '' @ (if err \<noteq> [] then err else ''Unknown error''))
                     (log E ''ERROR: VCF compression failed'' st')))))"

definition compress_and_index_vcf :: "env \<Rightarrow> pipeline \<Rightarrow> (exn + path) \<times> pipeline" where
  "compress_and_index_vcf E st =
     (case compress_vcf E st of
        (Inl e, st') \<Rightarrow> (Inl e, st')
      | (Inr compressed_vcf, st') \<Rightarrow>
          (let tbi_path = compressed_vcf @ ''.tbi'' in
           if files st' tbi_path \<noteq> None then
             (Inr compressed_vcf, log E (''VCF index already exists: '' @ tbi_path) st')
           else
             (case run_command E [''tabix'', ''-p'', ''vcf'', compressed_vcf] ''VCF indexing''
                     (log E ''Indexing VCF file...'' st') of
                (Inl e, st'') \<Rightarrow> (Inl e, st'')
              | (Inr r, st'') \<Rightarrow> (Inr compressed_vcf, st''))))"

section \<open>\<open>count_vcf_variants\<close> and \<open>apply_variants\<close>\<close>

text \<open>
  \<open>count_vcf_variants\<close> calls \<open>subprocess.run\<close> itself, with the standard output
  captured as text and the standard error left alone.
\<close>

definition count_vcf_variants :: "env \<Rightarrow> path \<Rightarrow> pipeline \<Rightarrow> (exn + int) \<times> pipeline" where
  "count_vcf_variants E vcf st =
     (case spawn E [''bcftools'', ''view'', ''-H'', vcf] st of
        (None, st') \<Rightarrow> (Inl (FileNotFoundError ''bcftools''), st')
      | (Some (rc, out, err), st') \<Rightarrow>
          if rc \<noteq> 0 then
            (Inl (CalledProcessError [''bcftools'', ''view'', ''-H'', vcf] rc (Some out) None), st')
          else
            (Inr (if py_strip out \<noteq> [] then int (length (split_nl (py_strip out))) else 0),
             st'))"

definition apply_variants :: "env \<Rightarrow> path \<Rightarrow> pipeline \<Rightarrow> (exn + unit) \<times> pipeline" where
  "apply_variants E compressed_vcf st =
     (case spawn_into E [''bcftools'', ''consensus'', ''-f'', fasta_path st, compressed_vcf]
             (output_path st) (log E ''Applying variants to reference...'' st) of
        (None, st') \<Rightarrow> (Inl (FileNotFoundError ''bcftools''), st')
      | (Some (rc, err), st') \<Rightarrow>
          if rc \<noteq> 0 then
            (Inl (CalledProcessError
                   [''bcftools'', ''consensus'', ''-f'', fasta_path st, compressed_vcf]
                   rc None (Some err)), st')
          else (Inr (), if err \<noteq> [] then log E (''bcftools stderr: '' @ err) st' else st'))"


section \<open>\<open>validate_output\<close>\<close>

definition bar :: string where
  "bar = replicate 60 CHR ''=''"

text \<open>The three lines that report one statistics record.\<close>

definition log_stats :: "env \<Rightarrow> file_stats \<Rightarrow> pipeline \<Rightarrow> pipeline" where
  "log_stats E stats st =
     log E (''  MD5 checksum: '' @ (case md5 stats of None \<Rightarrow> ''None'' | Some h \<Rightarrow> h))
       (log E (''  Total length: '' @ fmt_commas (total_length stats) @ '' bp'')
         (log E (''  Number of sequences: '' @ str_int (num_sequences stats)) st))"

text \<open>
  The checks, from \<open>Validation checks:\<close> to the end of \<open>validate_output\<close>. The flag
  \<open>checks_passed\<close> starts true and each failing check clears it.
\<close>

definition run_checks :: "env \<Rightarrow> file_stats \<Rightarrow> file_stats \<Rightarrow> pipeline \<Rightarrow> bool \<times> pipeline" where
  "run_checks E input_stats output_stats st =
     (let st1 = log E (LF # ''Validation checks:'') st;
          checks_passed = True;
          check1 = (num_sequences input_stats = num_sequences output_stats);
          st2 = log E (if check1 then ''  '' @ check_mark @ '' Number of sequences matches''
                       else ''  '' @ cross_mark @ '' WARNING: Number of sequences differs!'') st1;
          checks_passed = (if check1 then checks_passed else False);
          check2 = (md5 input_stats \<noteq> md5 output_stats);
          st3 = log E (if check2
                       then ''  '' @ check_mark @ '' Output differs from input (variants applied)''
                       else ''  '' @ cross_mark @
                            '' WARNING: Output identical to input (no changes made?)'') st2;
          checks_passed = (if check2 then checks_passed else False);
          check3 = (case files st3 (output_path st3) of
                      None \<Rightarrow> False | Some content \<Rightarrow> 0 < length content);
          st4 = log E (if check3 then ''  '' @ check_mark @ '' Output file exists and has content''
                       else ''  '' @ cross_mark @ '' ERROR: Output file is missing or empty!'') st3;
          checks_passed = (if check3 then checks_passed else False);
          length_diff = total_length output_stats - total_length input_stats;
          st5 = log E (LF # ''  Length change: '' @ fmt_signed_commas length_diff @ '' bp'') st4;
          st6 = log E (LF # bar) st5;
          st7 = log E (if checks_passed then check_mark @ '' VALIDATION PASSED''
                       else cross_mark @ '' VALIDATION FAILED - Review warnings above'') st6;
          st8 = log E (bar @ [LF]) st7
      in (checks_passed, st8))"

definition validate_output :: "env \<Rightarrow> pipeline \<Rightarrow> (exn + bool) \<times> pipeline" where
  "validate_output E st =
     (let st1 = log E (LF # ''Input FASTA statistics:'')
                  (log E bar (log E ''VALIDATION REPORT'' (log E (LF # bar) st))) in
      case get_file_stats E (files st1) (fasta_path st1) of
        Inl e \<Rightarrow> (Inl e, st1)
      | Inr input_stats \<Rightarrow>
          (let st2 = log E (LF # ''Output FASTA statistics:'') (log_stats E input_stats st1) in
           case get_file_stats E (files st2) (output_path st2) of
             Inl e \<Rightarrow> (Inl e, st2)
           | Inr output_stats \<Rightarrow>
               (case run_checks E input_stats output_stats (log_stats E output_stats st2) of
                  (checks_passed, st3) \<Rightarrow> (Inr checks_passed, st3))))"

section \<open>\<open>run\<close>\<close>

definition log_banner :: "env \<Rightarrow> pipeline \<Rightarrow> pipeline" where
  "log_banner E st =
     log E (bar @ [LF])
       (log E (''Log file: '' @ log_file st)
         (log E (''Output FASTA: '' @ output_path st)
           (log E (''Input VCF: '' @ vcf_path st)
             (log E (''Input FASTA: '' @ fasta_path st)
               (log E bar (log E ''VCF to FASTA Pipeline'' (log E bar st)))))))"

text \<open>The body of the \<open>try\<close> block: the six steps in order, the first exception ends it.\<close>

definition steps :: "env \<Rightarrow> pipeline \<Rightarrow> (exn + bool) \<times> pipeline" where
  "steps E st =
     (case check_dependencies E (log_banner E st) of
        (Inl e, st1) \<Rightarrow> (Inl e, st1)
      | (Inr u, st1) \<Rightarrow>
     (case index_fasta E st1 of
        (Inl e, st2) \<Rightarrow> (Inl e, st2)
      | (Inr u, st2) \<Rightarrow>
     (case compress_and_index_vcf E st2 of
        (Inl e, st3) \<Rightarrow> (Inl e, st3)
      | (Inr compressed_vcf, st3) \<Rightarrow>
     (case count_vcf_variants E compressed_vcf st3 of
        (Inl e, st4) \<Rightarrow> (Inl e, st4)
      | (Inr num_variants, st4) \<Rightarrow>
     (case apply_variants E compressed_vcf
             (log E (LF # ''Number of variants in VCF: '' @ str_int num_variants) st4) of
        (Inl e, st5) \<Rightarrow> (Inl e, st5)
      | (Inr u, st5) \<Rightarrow>
     (case validate_output E st5 of
        (Inl e, st6) \<Rightarrow> (Inl e, st6)
      | (Inr validation_passed, st6) \<Rightarrow>
          (Inr validation_passed,
           log E (''Output saved to: '' @ output_path st6)
             (log E (LF # ''Pipeline completed successfully!'') st6))))))))"

definition str_exn :: "env \<Rightarrow> exn \<Rightarrow> string" where
  "str_exn E e = (case e of RuntimeError m \<Rightarrow> m | _ \<Rightarrow> exn_text E e)"

text \<open>\<open>run\<close>: the \<open>except\<close> clause logs the exception and raises it again.\<close>

definition run :: "env \<Rightarrow> pipeline \<Rightarrow> (exn + bool) \<times> pipeline" where
  "run E st =
     (case steps E st of
        (Inr validation_passed, st') \<Rightarrow> (Inr validation_passed, st')
      | (Inl e, st') \<Rightarrow>
          (Inl e,
           log E (''Exception: '' @ str_exn E e)
             (log E bar (log E ''ERROR: Pipeline failed!'' (log E (LF # bar) st')))))"


section \<open>Sequence files and example environments used in the statements\<close>

text \<open>A line is a header line when, stripped, it starts with \<open>>\<close>: the test of the loop.\<close>

definition is_header :: "string \<Rightarrow> bool" where
  "is_header line = startswith (py_strip line) ''>''"

text \<open>
  A sequence file written record by record: a header line \<open>>name\<close>, then the residue
  lines, every line ended by a line feed. A record is well formed when its name has no
  line break and its residue lines have no white space and do not start with \<open>>\<close>.
\<close>

definition plain :: "string \<Rightarrow> bool" where
  "plain l = (\<forall>c\<in>set l. \<not> isspace c)"

fun record_lines :: "string \<times> string list \<Rightarrow> string list" where
  "record_lines (name, residues) = (CHR ''>'' # name @ [LF]) # map (\<lambda>l. l @ [LF]) residues"

definition fasta_text :: "(string \<times> string list) list \<Rightarrow> string" where
  "fasta_text records = concat (concat (map record_lines records))"

definition wf_record :: "string \<times> string list \<Rightarrow> bool" where
  "wf_record r = ((\<forall>c\<in>set (fst r). c \<noteq> LF \<and> c \<noteq> CR) \<and>
                  (\<forall>l\<in>set (snd r). plain l \<and> \<not> startswith l ''>''))"

text \<open>
  Example environments: the digest is the identity on the bytes (so two digests are equal
  exactly when the bytes are), the clock always shows noon. \<open>quiet_tools\<close> are tools that
  exit with status 0, print nothing and touch no file.
\<close>

definition demo_env :: "(string list \<Rightarrow> (path \<rightharpoonup> string) \<Rightarrow> outcome) \<Rightarrow> env" where
  "demo_env t = \<lparr>tools = t, md5_hexdigest = (\<lambda>bytes. bytes),
                 clock = (\<lambda>k. ''12:00''), exn_text = (\<lambda>e. ''error'')\<rparr>"

definition quiet_tools :: "string list \<Rightarrow> (path \<rightharpoonup> string) \<Rightarrow> outcome" where
  "quiet_tools cmd fs = Exited 0 [] [] fs"

text \<open>
  Tools that fail with status 1 and the error text \<open>boom\<close>; tools that succeed
  silently but write \<open>warning\<close> to their standard error; and a pipeline over two
  small files, with the log in \<open>run.log\<close>.
\<close>

definition failing_tools :: "string list \<Rightarrow> (path \<rightharpoonup> string) \<Rightarrow> outcome" where
  "failing_tools cmd fs = Exited 1 [] ''boom'' fs"

definition warning_tools :: "string list \<Rightarrow> (path \<rightharpoonup> string) \<Rightarrow> outcome" where
  "warning_tools cmd fs = Exited 0 [] ''warning'' fs"

definition demo_pipeline :: "path \<Rightarrow> pipeline" where
  "demo_pipeline out =
     \<lparr>fasta_path = ''ref.fa'', vcf_path = ''v.vcf'', output_path = out,
      log_file = ''run.log'',
      files = [''ref.fa'' \<mapsto> ''>s'' @ [LF] @ ''ACGT'' @ [LF], ''v.vcf'' \<mapsto> ''chr1 5 . A G'' @ [LF]],
      messages = [], spawned = []\<rparr>"

text \<open>
  The listing of a variant file as the listing tool prints it: one line per variant, each
  line not empty, without a line feed inside, and with no white space at either end.
\<close>

definition listing_ok :: "string list \<Rightarrow> bool" where
  "listing_ok ls = (\<forall>l\<in>set ls. l \<noteq> [] \<and> LF \<notin> set l \<and> \<not> isspace (hd l) \<and> \<not> isspace (last l))"

text \<open>Tools that succeed and print a fixed text.\<close>

definition printing_tools :: "string \<Rightarrow> string list \<Rightarrow> (path \<rightharpoonup> string) \<Rightarrow> outcome" where
  "printing_tools out cmd fs = Exited 0 out [] fs"


text \<open>An indexing tool: given a command of three words it writes the index beside the file
  named last, and succeeds silently.\<close>

definition faidx_tools :: "string list \<Rightarrow> (path \<rightharpoonup> string) \<Rightarrow> outcome" where
  "faidx_tools cmd fs =
     (case cmd of
        [tool, sub, p] \<Rightarrow> Exited 0 [] [] (fs(p @ ''.fai'' \<mapsto> ''index''))
      | _ \<Rightarrow> Exited 0 [] [] fs)"


text \<open>
  Notions for the statements about a whole run. The tools keep a path when no process
  changes the file there. One state keeps a path of another when the four fields of the
  pipeline are the same and, with tools that keep the path and a log file elsewhere, the
  file at the path is the same.
\<close>

definition tools_keep :: "env \<Rightarrow> path \<Rightarrow> bool" where
  "tools_keep E p =
     (\<forall>cmd fs rc out err fs'. tools E cmd fs = Exited rc out err fs' \<longrightarrow> fs' p = fs p)"

definition keeps :: "env \<Rightarrow> path \<Rightarrow> pipeline \<Rightarrow> pipeline \<Rightarrow> bool" where
  "keeps E p st st' =
     (fasta_path st' = fasta_path st \<and> vcf_path st' = vcf_path st \<and>
      output_path st' = output_path st \<and> log_file st' = log_file st \<and>
      (tools_keep E p \<and> p \<noteq> log_file st \<longrightarrow> files st' p = files st p))"

text \<open>
  The steps of \<open>run\<close> before the validation, from the banner to \<open>apply_variants\<close>: the
  state they end in is the state that \<open>validate_output\<close> starts from.
\<close>

definition before_validation :: "env \<Rightarrow> pipeline \<Rightarrow> (exn + unit) \<times> pipeline" where
  "before_validation E st =
     (case check_dependencies E (log_banner E st) of
        (Inl e, st1) \<Rightarrow> (Inl e, st1)
      | (Inr u, st1) \<Rightarrow>
     (case index_fasta E st1 of
        (Inl e, st2) \<Rightarrow> (Inl e, st2)
      | (Inr u, st2) \<Rightarrow>
     (case compress_and_index_vcf E st2 of
        (Inl e, st3) \<Rightarrow> (Inl e, st3)
      | (Inr compressed_vcf, st3) \<Rightarrow>
     (case count_vcf_variants E compressed_vcf st3 of
        (Inl e, st4) \<Rightarrow> (Inl e, st4)
      | (Inr num_variants, st4) \<Rightarrow>
          apply_variants E compressed_vcf
            (log E (LF # ''Number of variants in VCF: '' @ str_int num_variants) st4)))))"



text \<open>
  Tools that all succeed: \<open>bgzip\<close> prints a compressed stream, \<open>tabix\<close> writes
  the index beside the file named last on its command line, the others do nothing.
\<close>

definition hts_tools :: "string list \<Rightarrow> (path \<rightharpoonup> string) \<Rightarrow> outcome" where
  "hts_tools cmd fs =
     (if program cmd = ''bgzip'' then Exited 0 ''BGZF'' [] fs
      else if program cmd = ''tabix'' then Exited 0 [] [] (fs(last cmd @ ''.tbi'' \<mapsto> ''TBI''))
      else Exited 0 [] [] fs)"

section \<open>Lines of a file\<close>

lemma keep_lines_line:
  "LF \<notin> set l \<Longrightarrow> keep_lines (l @ LF # rest) = (l @ [LF]) # keep_lines rest"
  by (induction l) auto

lemma concat_keep_lines: "concat (keep_lines s) = s"
  by (induction s) (auto split: list.splits)

lemma universal_newlines_id: "CR \<notin> set s \<Longrightarrow> universal_newlines s = s"
  by (induction s rule: universal_newlines.induct) auto

lemma isspace_LF: "isspace LF" by (simp add: isspace_def)

lemma isspace_CR: "isspace CR" by (simp add: isspace_def)

lemma not_isspace_gt: "\<not> isspace CHR ''>''" by (simp add: isspace_def)

lemma py_strip_plain_line: "plain l \<Longrightarrow> py_strip (l @ [LF]) = l"
proof (cases l)
  case Nil
  then show ?thesis by (simp add: py_strip_def isspace_LF)
next
  case (Cons a t)
  assume p: "plain l"
  have 1: "dropWhile isspace (l @ [LF]) = l @ [LF]"
    using p Cons by (simp add: plain_def)
  have 2: "dropWhile isspace (rev l) = rev l"
    by (rule dropWhile_id) (use p in \<open>auto simp: plain_def\<close>)
  show ?thesis by (simp add: py_strip_def 1 2 isspace_LF)
qed

lemma py_strip_keeps_head: "\<not> isspace c \<Longrightarrow> \<exists>t. py_strip (c # s) = c # t"
proof -
  assume h: "\<not> isspace c"
  have "dropWhile isspace (rev s @ [c]) = dropWhile isspace (rev s) @ [c] \<or> dropWhile isspace (rev s @ [c]) = [c]"
    using h by (auto simp: dropWhile_append)
  then have R: "rev (dropWhile isspace (rev s @ [c])) = c # rev (dropWhile isspace (rev s)) \<or> rev (dropWhile isspace (rev s @ [c])) = [c]"
    by auto
  from h have e: "py_strip (c # s) = rev (dropWhile isspace (rev s @ [c]))"
    by (simp add: py_strip_def)
  show ?thesis unfolding e using R by blast
qed

lemma header_line_is_header: "is_header (CHR ''>'' # name @ [LF])"
  using py_strip_keeps_head[OF not_isspace_gt, of "name @ [LF]"]
  by (auto simp: is_header_def startswith_def)

lemma residue_line_not_header:
  "plain l \<Longrightarrow> \<not> startswith l ''>'' \<Longrightarrow> \<not> is_header (l @ [LF])"
  by (simp add: is_header_def py_strip_plain_line)

lemma plain_no_breaks: "plain l \<Longrightarrow> LF \<notin> set l \<and> CR \<notin> set l"
  using isspace_LF isspace_CR by (auto simp: plain_def)

lemma keep_lines_concat:
  "\<forall>l\<in>set ls. LF \<notin> set l \<Longrightarrow> keep_lines (concat (map (\<lambda>l. l @ [LF]) ls)) = map (\<lambda>l. l @ [LF]) ls"
  by (induction ls) (simp_all add: keep_lines_line)

lemma record_lines_shape:
  "record_lines r = map (\<lambda>l. l @ [LF]) ((CHR ''>'' # fst r) # snd r)"
  by (cases r) simp

lemma file_lines_fasta_text:
  assumes "\<forall>r\<in>set rs. wf_record r"
  shows "file_lines (fasta_text rs) = concat (map record_lines rs)"
proof -
  let ?ls = "concat (map (\<lambda>r. (CHR ''>'' # fst r) # snd r) rs)"
  have shape: "concat (map record_lines rs) = map (\<lambda>l. l @ [LF]) ?ls"
    by (simp add: record_lines_shape[abs_def] map_concat comp_def)
  have nb: "\<forall>l\<in>set ?ls. LF \<notin> set l \<and> CR \<notin> set l"
    using assms plain_no_breaks by (fastforce simp: wf_record_def)
  have "CR \<notin> set (fasta_text rs)"
    unfolding fasta_text_def shape using nb by auto
  then have "file_lines (fasta_text rs) = keep_lines (fasta_text rs)"
    by (simp add: file_lines_def universal_newlines_id)
  also have "\<dots> = map (\<lambda>l. l @ [LF]) ?ls"
    unfolding fasta_text_def shape using nb by (intro keep_lines_concat) blast
  finally show ?thesis by (simp add: shape)
qed

section \<open>The statistics loop\<close>

lemma scan_lines_fed:
  "scan_lines ls stats fed cur = (stats', fed', cur') \<Longrightarrow> fed' = fed @ concat ls"
  by (induction ls stats fed cur rule: scan_lines.induct) (auto split: if_splits)

lemma scan_lines_counts:
  "scan_lines ls stats fed cur = (stats', fed', cur') \<Longrightarrow>
     num_sequences stats' = num_sequences stats + int (length (filter is_header ls)) \<and>
     total_length stats' + int (length (concat cur')) =
       total_length stats + int (length (concat cur)) +
       (\<Sum>l\<leftarrow>filter (\<lambda>l. \<not> is_header l) ls. int (length (py_strip l))) \<and>
     md5 stats' = md5 stats"
  by (induction ls stats fed cur rule: scan_lines.induct) (auto split: if_splits simp: is_header_def)

lemma headers_of_records:
  "\<forall>r\<in>set rs. wf_record r \<Longrightarrow>
     length (filter is_header (concat (map record_lines rs))) = length rs"
proof (induction rs)
  case Nil
  then show ?case by simp
next
  case (Cons r rs)
  obtain name residues where r: "r = (name, residues)" by (cases r)
  have "filter is_header (map (\<lambda>l. l @ [LF]) residues) = []"
    using Cons.prems r by (auto simp: filter_empty_conv wf_record_def residue_line_not_header)
  then show ?case using Cons r by (simp add: header_line_is_header)
qed

lemma residues_of_records:
  "\<forall>r\<in>set rs. wf_record r \<Longrightarrow>
     (\<Sum>l\<leftarrow>filter (\<lambda>l. \<not> is_header l) (concat (map record_lines rs)). int (length (py_strip l)))
       = (\<Sum>r\<leftarrow>rs. int (length (concat (snd r))))"
proof (induction rs)
  case Nil
  then show ?case by simp
next
  case (Cons r rs)
  obtain name residues where r: "r = (name, residues)" by (cases r)
  have w: "\<forall>l\<in>set residues. plain l \<and> \<not> startswith l ''>''"
    using Cons.prems r by (simp add: wf_record_def)
  then have f: "filter (\<lambda>l. \<not> is_header l) (map (\<lambda>l. l @ [LF]) residues) = map (\<lambda>l. l @ [LF]) residues"
    by (auto simp: filter_id_conv residue_line_not_header)
  have "(\<Sum>l\<leftarrow>map (\<lambda>l. l @ [LF]) residues. int (length (py_strip l))) = int (length (concat residues))"
    using w by (induction residues) (simp_all add: py_strip_plain_line)
  then show ?case using Cons r f by (simp add: header_line_is_header)
qed

lemma get_file_stats_lines:
  assumes "fs p = Some content"
  shows "get_file_stats E fs p =
           Inr \<lparr>num_sequences = int (length (filter is_header (file_lines content))),
                total_length = (\<Sum>l\<leftarrow>filter (\<lambda>l. \<not> is_header l) (file_lines content).
                                  int (length (py_strip l))),
                md5 = Some (md5_hexdigest E (universal_newlines content))\<rparr>"
proof -
  obtain stats fed cur where sc:
    "scan_lines (file_lines content) \<lparr>num_sequences = 0, total_length = 0, md5 = None\<rparr> [] []
       = (stats, fed, cur)"
    by (metis prod_cases3)
  have fed: "fed = universal_newlines content"
    using scan_lines_fed[OF sc] by (simp add: file_lines_def concat_keep_lines)
  note c = scan_lines_counts[OF sc]
  show ?thesis
    using c by (cases "cur = []") (simp_all add: get_file_stats_def assms sc fed)
qed

text \<open>
  Claim C1. For a file that exists, \<open>get_file_stats\<close> returns the number of header lines
  as \<open>num_sequences\<close> and the summed length of all stripped residue lines as
  \<open>total_length\<close>: the residues of a record are added when the next header comes and the
  residues of the last record at the end of the file. For a file written from well-formed
  records these are the number of records and the sum of their residue lengths, a record
  with no residues included.
\<close>

theorem get_file_stats_flush:
  assumes "fs p = Some content"
  shows "\<exists>s. get_file_stats E fs p = Inr s \<and>
           num_sequences s = int (length (filter is_header (file_lines content))) \<and>
           total_length s =
             (\<Sum>l\<leftarrow>filter (\<lambda>l. \<not> is_header l) (file_lines content). int (length (py_strip l))) \<and>
           (\<forall>records. (\<forall>r\<in>set records. wf_record r) \<and> content = fasta_text records \<longrightarrow>
               num_sequences s = int (length records) \<and>
               total_length s = (\<Sum>r\<leftarrow>records. int (length (concat (snd r)))))"
  using get_file_stats_lines[of fs p content E] assms
  by (simp add: file_lines_fasta_text headers_of_records residues_of_records)

text \<open>Records with residue lengths 10, 0 and 5 give three sequences of total length 15.\<close>

theorem get_file_stats_flush_witness:
  "\<exists>s. get_file_stats (demo_env quiet_tools)
          [''x.fa'' \<mapsto> fasta_text [(''a'', [''ACGTACGTAC'']), (''b'', []), (''c'', [''ACG'', ''TA''])]]
          ''x.fa'' = Inr s \<and>
        num_sequences s = 3 \<and> total_length s = 15"
proof -
  let ?rs = "[(''a'', [''ACGTACGTAC'']), (''b'', []), (''c'', [''ACG'', ''TA''])]"
  have wf: "\<forall>r\<in>set ?rs. wf_record r"
    by (simp add: wf_record_def plain_def isspace_def startswith_def)
  have ex: "[''x.fa'' \<mapsto> fasta_text ?rs] ''x.fa'' = Some (fasta_text ?rs)"
    by simp
  from get_file_stats_flush[of "[''x.fa'' \<mapsto> fasta_text ?rs]" "''x.fa''" "fasta_text ?rs"
      "demo_env quiet_tools"] ex wf
  show ?thesis by auto
qed

text \<open>
  Claim C8. The statistics of a file depend on its content only: two files with the same
  content, or the same file read twice, give the same record, and the digest is the MD5
  of the whole text read.
\<close>

theorem get_file_stats_deterministic:
  assumes "fs1 p1 = Some content" and "fs2 p2 = Some content"
  shows "get_file_stats E fs1 p1 = get_file_stats E fs2 p2 \<and>
         (\<exists>s. get_file_stats E fs1 p1 = Inr s \<and>
              md5 s = Some (md5_hexdigest E (universal_newlines content)))"
  using get_file_stats_lines[of fs1 p1 content E] get_file_stats_lines[of fs2 p2 content E] assms
  by simp

theorem get_file_stats_deterministic_witness:
  "get_file_stats (demo_env quiet_tools)
     [''a.fa'' \<mapsto> ''>s'' @ [LF] @ ''ACGT'' @ [LF], ''copy.fa'' \<mapsto> ''>s'' @ [LF] @ ''ACGT'' @ [LF]] ''a.fa''
   = get_file_stats (demo_env quiet_tools)
     [''a.fa'' \<mapsto> ''>s'' @ [LF] @ ''ACGT'' @ [LF], ''copy.fa'' \<mapsto> ''>s'' @ [LF] @ ''ACGT'' @ [LF]] ''copy.fa''"
  using get_file_stats_deterministic[of
      "[''a.fa'' \<mapsto> ''>s'' @ [LF] @ ''ACGT'' @ [LF], ''copy.fa'' \<mapsto> ''>s'' @ [LF] @ ''ACGT'' @ [LF]]"
      "''a.fa''" "''>s'' @ [LF] @ ''ACGT'' @ [LF]"
      "[''a.fa'' \<mapsto> ''>s'' @ [LF] @ ''ACGT'' @ [LF], ''copy.fa'' \<mapsto> ''>s'' @ [LF] @ ''ACGT'' @ [LF]]"
      "''copy.fa''" "demo_env quiet_tools"]
  by simp

section \<open>Logging\<close>

lemma log_fields [simp]:
  "fasta_path (log E m st) = fasta_path st"
  "vcf_path (log E m st) = vcf_path st"
  "output_path (log E m st) = output_path st"
  "log_file (log E m st) = log_file st"
  "messages (log E m st) = messages st @ [m]"
  "spawned (log E m st) = spawned st"
  by (simp_all add: log_def)

lemma files_log_other [simp]: "p \<noteq> log_file st \<Longrightarrow> files (log E m st) p = files st p"
  by (simp add: log_def)

lemma files_log_None [simp]:
  "files (log E m st) p = None \<longleftrightarrow> files st p = None \<and> p \<noteq> log_file st"
  by (simp add: log_def)

section \<open>The command executor\<close>

lemma run_command_cases:
  "run_command E cmd description st =
     (case tools E cmd (files (log E (''Command: '' @ join '' '' cmd)
                                (log E (''Running: '' @ description) st))) of
        NotFound \<Rightarrow>
          (Inl (FileNotFoundError (program cmd)),
           (log E (''Command: '' @ join '' '' cmd) (log E (''Running: '' @ description) st))
             \<lparr>spawned := spawned st @ [(cmd, None)]\<rparr>)
      | Exited rc out err fs' \<Rightarrow>
          (let st' = (log E (''Command: '' @ join '' '' cmd) (log E (''Running: '' @ description) st))
                       \<lparr>files := fs', spawned := spawned st @ [(cmd, Some rc)]\<rparr> in
           if rc = 0 then
             (Inr (CompletedProcess cmd rc out err),
              if out \<noteq> [] then log E (''Output: '' @ out) st' else st')
           else
             (Inl (CalledProcessError cmd rc (Some out) (Some err)),
              log E (''Error message: '' @ err)
                (log E (''ERROR: '' @ description @ '' failed'') st'))))"
  by (simp add: run_command_def spawn_def split: outcome.splits)

text \<open>
  Claim C3, as the code has it. \<open>run_command\<close> logs the description and the command,
  then runs the process. On a non-zero exit it logs that the described step failed and the
  captured standard error, and raises the \<open>CalledProcessError\<close> of the process, which
  carries the command, the status and both captured streams. On exit 0 it returns the
  completed process with both captured streams and logs the captured standard output when
  that is not empty. A missing executable raises \<open>FileNotFoundError\<close> with nothing
  more logged.
\<close>

theorem run_command_outcome:
  "(case tools E cmd (files (log E (''Command: '' @ join '' '' cmd)
                                (log E (''Running: '' @ description) st))) of
      NotFound \<Rightarrow>
        fst (run_command E cmd description st) = Inl (FileNotFoundError (program cmd)) \<and>
        messages (snd (run_command E cmd description st)) =
          messages st @ [''Running: '' @ description, ''Command: '' @ join '' '' cmd]
    | Exited rc out err fs' \<Rightarrow>
        if rc = 0 then
          fst (run_command E cmd description st) = Inr (CompletedProcess cmd rc out err) \<and>
          messages (snd (run_command E cmd description st)) =
            messages st @ [''Running: '' @ description, ''Command: '' @ join '' '' cmd] @
              (if out \<noteq> [] then [''Output: '' @ out] else [])
        else
          fst (run_command E cmd description st) =
            Inl (CalledProcessError cmd rc (Some out) (Some err)) \<and>
          messages (snd (run_command E cmd description st)) =
            messages st @ [''Running: '' @ description, ''Command: '' @ join '' '' cmd,
                           ''ERROR: '' @ description @ '' failed'', ''Error message: '' @ err])"
  by (simp add: run_command_cases split: outcome.splits)

theorem run_command_outcome_witness:
  "fst (run_command (demo_env failing_tools) [''samtools'', ''faidx'', ''ref.fa''] ''FASTA indexing''
         (demo_pipeline ''out.fa'')) =
     Inl (CalledProcessError [''samtools'', ''faidx'', ''ref.fa''] 1 (Some []) (Some ''boom'')) \<and>
   messages (snd (run_command (demo_env failing_tools) [''samtools'', ''faidx'', ''ref.fa'']
                    ''FASTA indexing'' (demo_pipeline ''out.fa''))) =
     [''Running: FASTA indexing'', ''Command: samtools faidx ref.fa'',
      ''ERROR: FASTA indexing failed'', ''Error message: boom'']"
  using run_command_outcome[of "demo_env failing_tools" "[''samtools'', ''faidx'', ''ref.fa'']"
      "''FASTA indexing''" "demo_pipeline ''out.fa''"]
  by (simp add: demo_env_def failing_tools_def demo_pipeline_def)

text \<open>
  The claim as worded fails twice. The exception raised on failure is the same for two
  different descriptions, so it does not carry the description; and a process that
  succeeds with a non-empty standard error leaves only the two opening messages in the log.
\<close>

theorem run_command_counterexample:
  "fst (run_command (demo_env failing_tools) [''samtools'', ''faidx'', ''ref.fa''] ''FASTA indexing''
         (demo_pipeline ''out.fa'')) =
   fst (run_command (demo_env failing_tools) [''samtools'', ''faidx'', ''ref.fa''] ''another label''
         (demo_pipeline ''out.fa'')) \<and>
   fst (run_command (demo_env warning_tools) [''samtools'', ''faidx'', ''ref.fa''] ''FASTA indexing''
         (demo_pipeline ''out.fa'')) =
     Inr (CompletedProcess [''samtools'', ''faidx'', ''ref.fa''] 0 [] ''warning'') \<and>
   messages (snd (run_command (demo_env warning_tools) [''samtools'', ''faidx'', ''ref.fa'']
                    ''FASTA indexing'' (demo_pipeline ''out.fa''))) =
     [''Running: FASTA indexing'', ''Command: samtools faidx ref.fa'']"
  by (simp add: run_command_cases demo_env_def failing_tools_def warning_tools_def demo_pipeline_def)

section \<open>Counting variants\<close>

lemma length_split_nl: "length (split_nl s) = Suc (count_list s LF)"
  by (induction s) (auto split: list.splits)

lemma split_nl_no_LF: "LF \<notin> set l \<Longrightarrow> split_nl l = [l]"
  by (induction l) auto

lemma split_nl_append_LF:
  "LF \<notin> set l \<Longrightarrow> split_nl (l @ LF # rest) = l # split_nl rest"
  by (induction l) auto

lemma split_nl_join:
  "ls \<noteq> [] \<Longrightarrow> \<forall>l\<in>set ls. LF \<notin> set l \<Longrightarrow> split_nl (join [LF] ls) = ls"
  by (induction "[LF]" ls rule: join.induct) (simp_all add: split_nl_no_LF split_nl_append_LF)

lemma concat_lines_join:
  "ls \<noteq> [] \<Longrightarrow> concat (map (\<lambda>l. l @ [LF]) ls) = join [LF] ls @ [LF]"
  by (induction "[LF]" ls rule: join.induct) simp_all

lemma hd_join: "ls \<noteq> [] \<Longrightarrow> hd ls \<noteq> [] \<Longrightarrow> hd (join sep ls) = hd (hd ls)"
  by (induction sep ls rule: join.induct) simp_all

lemma join_nonempty: "ls \<noteq> [] \<Longrightarrow> last ls \<noteq> [] \<Longrightarrow> join sep ls \<noteq> []"
  by (induction sep ls rule: join.induct) simp_all

lemma last_join: "ls \<noteq> [] \<Longrightarrow> last ls \<noteq> [] \<Longrightarrow> last (join sep ls) = last (last ls)"
  by (induction sep ls rule: join.induct) (simp_all add: join_nonempty)

lemma py_strip_trailing_LF:
  assumes "s \<noteq> []" "\<not> isspace (hd s)" "\<not> isspace (last s)"
  shows "py_strip (s @ [LF]) = s"
proof -
  obtain a t where s: "s = a # t" using assms(1) by (cases s) auto
  have 1: "dropWhile isspace (s @ [LF]) = s @ [LF]"
    using assms(2) s by simp
  obtain b u where r: "rev s = b # u" using assms(1) by (cases "rev s") auto
  have "b = last s" using r assms(1) by (metis hd_rev list.sel(1))
  then have nb: "\<not> isspace b" using assms(3) by simp
  have 2: "dropWhile isspace (rev s) = rev s"
    unfolding r using nb by simp
  show ?thesis by (simp add: py_strip_def 1 2 isspace_LF)
qed

lemma py_strip_listing:
  assumes "listing_ok ls" "ls \<noteq> []"
  shows "py_strip (concat (map (\<lambda>l. l @ [LF]) ls)) = join [LF] ls"
proof -
  have h: "hd ls \<in> set ls" "last ls \<in> set ls" using assms(2) by simp_all
  then have ne: "hd ls \<noteq> []" "last ls \<noteq> []" using assms(1) by (auto simp: listing_ok_def)
  have "\<not> isspace (hd (join [LF] ls))" "\<not> isspace (last (join [LF] ls))"
    using assms h ne by (auto simp: hd_join last_join listing_ok_def)
  then show ?thesis
    using assms(2) ne by (simp add: concat_lines_join py_strip_trailing_LF join_nonempty)
qed

lemma count_listing:
  assumes "listing_ok ls"
  shows "(if py_strip (concat (map (\<lambda>l. l @ [LF]) ls)) \<noteq> []
          then int (length (split_nl (py_strip (concat (map (\<lambda>l. l @ [LF]) ls))))) else 0)
         = int (length ls)"
proof (cases "ls = []")
  case True
  then show ?thesis by (simp add: py_strip_def)
next
  case False
  have nl: "\<forall>l\<in>set ls. LF \<notin> set l" using assms by (simp add: listing_ok_def)
  have "last ls \<in> set ls" using False by simp
  then have "last ls \<noteq> []" using assms by (auto simp: listing_ok_def)
  then have "join [LF] ls \<noteq> []" using False by (simp add: join_nonempty)
  then show ?thesis
    using False nl by (simp add: py_strip_listing[OF assms False] split_nl_join)
qed

lemma count_vcf_variants_cases:
  "count_vcf_variants E vcf st =
     (case tools E [''bcftools'', ''view'', ''-H'', vcf] (files st) of
        NotFound \<Rightarrow>
          (Inl (FileNotFoundError ''bcftools''),
           st\<lparr>spawned := spawned st @ [([''bcftools'', ''view'', ''-H'', vcf], None)]\<rparr>)
      | Exited rc out err fs' \<Rightarrow>
          (if rc \<noteq> 0
           then Inl (CalledProcessError [''bcftools'', ''view'', ''-H'', vcf] rc (Some out) None)
           else Inr (if py_strip out \<noteq> [] then int (length (split_nl (py_strip out))) else 0),
           st\<lparr>files := fs',
              spawned := spawned st @ [([''bcftools'', ''view'', ''-H'', vcf], Some rc)]\<rparr>))"
  by (simp add: count_vcf_variants_def spawn_def split: outcome.splits)

text \<open>
  Claim C4, as the code has it. \<open>count_vcf_variants\<close> spawns the listing tool itself (it
  logs nothing and does not capture the standard error). It fails only when the tool is
  absent or exits non-zero. Otherwise it returns 0 when the stripped output is empty and
  else the number of pieces that the line feeds cut the stripped output into, one more
  than the number of line feeds. For a listing of non-empty lines with no white space at
  their ends that is the number of lines.
\<close>

theorem count_vcf_variants_outcome:
  "(tools E [''bcftools'', ''view'', ''-H'', vcf] (files st) = NotFound \<longrightarrow>
      fst (count_vcf_variants E vcf st) = Inl (FileNotFoundError ''bcftools'')) \<and>
   (\<forall>rc out err fs'.
      tools E [''bcftools'', ''view'', ''-H'', vcf] (files st) = Exited rc out err fs' \<longrightarrow>
      fst (count_vcf_variants E vcf st) =
        (if rc \<noteq> 0
         then Inl (CalledProcessError [''bcftools'', ''view'', ''-H'', vcf] rc (Some out) None)
         else Inr (if py_strip out = [] then 0 else 1 + int (count_list (py_strip out) LF)))) \<and>
   (\<forall>ls err fs'.
      listing_ok ls \<and>
      tools E [''bcftools'', ''view'', ''-H'', vcf] (files st) =
        Exited 0 (concat (map (\<lambda>l. l @ [LF]) ls)) err fs' \<longrightarrow>
      fst (count_vcf_variants E vcf st) = Inr (int (length ls))) \<and>
   messages (snd (count_vcf_variants E vcf st)) = messages st \<and>
   map fst (spawned (snd (count_vcf_variants E vcf st))) =
     map fst (spawned st) @ [[''bcftools'', ''view'', ''-H'', vcf]]"
proof (intro conjI allI impI)
  show "fst (count_vcf_variants E vcf st) = Inl (FileNotFoundError ''bcftools'')"
    if "tools E [''bcftools'', ''view'', ''-H'', vcf] (files st) = NotFound"
    using that by (simp add: count_vcf_variants_cases)
  show "fst (count_vcf_variants E vcf st) =
        (if rc \<noteq> 0
         then Inl (CalledProcessError [''bcftools'', ''view'', ''-H'', vcf] rc (Some out) None)
         else Inr (if py_strip out = [] then 0 else 1 + int (count_list (py_strip out) LF)))"
    if "tools E [''bcftools'', ''view'', ''-H'', vcf] (files st) = Exited rc out err fs'"
    for rc out err fs'
    using that by (simp add: count_vcf_variants_cases length_split_nl)
  show "fst (count_vcf_variants E vcf st) = Inr (int (length ls))"
    if "listing_ok ls \<and>
        tools E [''bcftools'', ''view'', ''-H'', vcf] (files st) =
          Exited 0 (concat (map (\<lambda>l. l @ [LF]) ls)) err fs'"
    for ls err fs'
    using that count_listing[of ls] by (simp add: count_vcf_variants_cases)
  show "messages (snd (count_vcf_variants E vcf st)) = messages st"
    by (simp add: count_vcf_variants_cases split: outcome.splits)
  show "map fst (spawned (snd (count_vcf_variants E vcf st))) =
        map fst (spawned st) @ [[''bcftools'', ''view'', ''-H'', vcf]]"
    by (simp add: count_vcf_variants_cases split: outcome.splits)
qed

theorem count_vcf_variants_outcome_witness:
  "fst (count_vcf_variants
          (demo_env (printing_tools (concat (map (\<lambda>l. l @ [LF]) [''chr1 5 A G'', ''chr1 9 C T'']))))
          ''v.vcf.gz'' (demo_pipeline ''out.fa'')) = Inr 2"
proof -
  let ?ls = "[''chr1 5 A G'', ''chr1 9 C T'']"
  let ?E = "demo_env (printing_tools (concat (map (\<lambda>l. l @ [LF]) ?ls)))"
  let ?st = "demo_pipeline ''out.fa''"
  have ok: "listing_ok ?ls"
    by (simp add: listing_ok_def isspace_def)
  have t: "tools ?E [''bcftools'', ''view'', ''-H'', ''v.vcf.gz''] (files ?st) =
           Exited 0 (concat (map (\<lambda>l. l @ [LF]) ?ls)) [] (files ?st)"
    by (simp add: demo_env_def printing_tools_def)
  have "listing_ok ?ls \<and>
        tools ?E [''bcftools'', ''view'', ''-H'', ''v.vcf.gz''] (files ?st) =
          Exited 0 (concat (map (\<lambda>l. l @ [LF]) ?ls)) [] (files ?st) \<longrightarrow>
        fst (count_vcf_variants ?E ''v.vcf.gz'' ?st) = Inr (int (length ?ls))"
    using count_vcf_variants_outcome[of ?E "''v.vcf.gz''" ?st] by blast
  with ok t have "fst (count_vcf_variants ?E ''v.vcf.gz'' ?st) = Inr (int (length ?ls))"
    by blast
  then show ?thesis by simp
qed

text \<open>
  The claim as worded fails on a listing with an empty line inside: two of its lines are
  not empty and 3 is returned. Nothing is logged, which \<open>run_command\<close> would have done.
\<close>

theorem count_vcf_variants_counterexample:
  "fst (count_vcf_variants
          (demo_env (printing_tools (''chr1 5 A G'' @ [LF] @ [LF] @ ''chr1 9 C T'' @ [LF])))
          ''v.vcf.gz'' (demo_pipeline ''out.fa'')) = Inr 3 \<and>
   length (filter (\<lambda>l. l \<noteq> []) (split_nl (''chr1 5 A G'' @ [LF] @ [LF] @ ''chr1 9 C T'' @ [LF]))) = 2 \<and>
   messages (snd (count_vcf_variants
          (demo_env (printing_tools (''chr1 5 A G'' @ [LF] @ [LF] @ ''chr1 9 C T'' @ [LF])))
          ''v.vcf.gz'' (demo_pipeline ''out.fa''))) = []"
  by (simp add: count_vcf_variants_cases demo_env_def printing_tools_def demo_pipeline_def
        py_strip_def isspace_def)

section \<open>The dependency check\<close>

lemma log_banner_fields [simp]:
  "fasta_path (log_banner E st) = fasta_path st"
  "vcf_path (log_banner E st) = vcf_path st"
  "output_path (log_banner E st) = output_path st"
  "log_file (log_banner E st) = log_file st"
  "spawned (log_banner E st) = spawned st"
  by (simp_all add: log_banner_def)







section \<open>Indexing the reference\<close>

lemma index_fasta_present:
  "files st (fasta_path st @ ''.fai'') \<noteq> None \<Longrightarrow>
     index_fasta E st =
       (Inr (), log E (''FASTA index already exists: '' @ fasta_path st @ ''.fai'') st)"
  by (simp add: index_fasta_def)

lemma index_fasta_absent_success:
  assumes absent: "files st (fasta_path st @ ''.fai'') = None"
      and first: "index_fasta E st = (Inr u, st1)"
  shows "\<exists>out err fs'.
           tools E [''samtools'', ''faidx'', fasta_path st]
             (files (log E (''Command: '' @ join '' '' [''samtools'', ''faidx'', fasta_path st])
                      (log E ''Running: FASTA indexing'' (log E ''Indexing FASTA file...'' st))))
             = Exited 0 out err fs' \<and>
           spawned st1 = spawned st @ [([''samtools'', ''faidx'', fasta_path st], Some 0)] \<and>
           fasta_path st1 = fasta_path st \<and> log_file st1 = log_file st \<and>
           (\<forall>p. p \<noteq> log_file st \<longrightarrow> files st1 p = fs' p)"
proof (cases "tools E [''samtools'', ''faidx'', fasta_path st]
             (files (log E (''Command: '' @ join '' '' [''samtools'', ''faidx'', fasta_path st])
                      (log E ''Running: FASTA indexing'' (log E ''Indexing FASTA file...'' st))))")
  case NotFound
  with absent first show ?thesis
    by (simp add: index_fasta_def run_command_cases)
next
  case (Exited rc out err fs')
  show ?thesis
  proof (cases "rc = 0")
    case True
    with absent first Exited show ?thesis
      by (auto simp: index_fasta_def run_command_cases Let_def split: if_splits)
  next
    case False
    with absent first Exited show ?thesis
      by (simp add: index_fasta_def run_command_cases)
  qed
qed

text \<open>
  Claim C5, as the code has it. Let the log file not be the index path. Start without the
  index, with an indexing tool that has written the index whenever it exits with status
  0, and let the first call of \<open>index_fasta\<close> return. Then the second call returns too
  and spawns nothing: over both calls the indexing tool has run exactly once. The second
  call finds the index, leaves it as the first call left it, and changes no file but the
  log.
\<close>

theorem index_fasta_idempotent:
  assumes "files st (fasta_path st @ ''.fai'') = None"
      and "log_file st \<noteq> fasta_path st @ ''.fai''"
      and "\<forall>fs out err fs'.
             tools E [''samtools'', ''faidx'', fasta_path st] fs = Exited 0 out err fs' \<longrightarrow>
             fs' (fasta_path st @ ''.fai'') \<noteq> None"
      and "index_fasta E st = (Inr u, st1)"
  shows "\<exists>st2. index_fasta E st1 = (Inr (), st2) \<and>
           spawned st2 = spawned st @ [([''samtools'', ''faidx'', fasta_path st], Some 0)] \<and>
           spawned st2 = spawned st1 \<and>
           files st1 (fasta_path st @ ''.fai'') \<noteq> None \<and>
           files st2 (fasta_path st @ ''.fai'') = files st1 (fasta_path st @ ''.fai'') \<and>
           (\<forall>p. p \<noteq> log_file st \<longrightarrow> files st2 p = files st1 p)"
proof -
  from index_fasta_absent_success[OF assms(1) assms(4)] obtain out err fs' where
    t: "tools E [''samtools'', ''faidx'', fasta_path st]
             (files (log E (''Command: '' @ join '' '' [''samtools'', ''faidx'', fasta_path st])
                      (log E ''Running: FASTA indexing'' (log E ''Indexing FASTA file...'' st))))
             = Exited 0 out err fs'"
    and s: "spawned st1 = spawned st @ [([''samtools'', ''faidx'', fasta_path st], Some 0)]"
    and f: "fasta_path st1 = fasta_path st" "log_file st1 = log_file st"
    and fl: "\<forall>p. p \<noteq> log_file st \<longrightarrow> files st1 p = fs' p"
    by blast
  from assms(3) t have "fs' (fasta_path st @ ''.fai'') \<noteq> None" by blast
  with fl assms(2) have ex: "files st1 (fasta_path st1 @ ''.fai'') \<noteq> None"
    by (simp add: f)
  show ?thesis
    by (rule exI[of _ "log E (''FASTA index already exists: '' @ fasta_path st1 @ ''.fai'') st1"])
       (use ex s f assms(2) in \<open>simp add: index_fasta_present\<close>)
qed

theorem index_fasta_idempotent_witness:
  "fst (index_fasta (demo_env faidx_tools)
          (snd (index_fasta (demo_env faidx_tools) (demo_pipeline ''out.fa'')))) = Inr () \<and>
   spawned (snd (index_fasta (demo_env faidx_tools)
          (snd (index_fasta (demo_env faidx_tools) (demo_pipeline ''out.fa''))))) =
     [([''samtools'', ''faidx'', ''ref.fa''], Some 0)]"
proof -
  let ?E = "demo_env faidx_tools"
  let ?st = "demo_pipeline ''out.fa''"
  have a: "files ?st (fasta_path ?st @ ''.fai'') = None"
    by (simp add: demo_pipeline_def)
  have l: "log_file ?st \<noteq> fasta_path ?st @ ''.fai''"
    by (simp add: demo_pipeline_def)
  have t: "\<forall>fs out err fs'.
             tools ?E [''samtools'', ''faidx'', fasta_path ?st] fs = Exited 0 out err fs' \<longrightarrow>
             fs' (fasta_path ?st @ ''.fai'') \<noteq> None"
    by (auto simp: demo_env_def faidx_tools_def)
  have "fst (index_fasta ?E ?st) = Inr ()"
    using a by (simp add: index_fasta_def run_command_cases Let_def demo_env_def faidx_tools_def)
  then have f: "index_fasta ?E ?st = (Inr (), snd (index_fasta ?E ?st))"
    by (metis prod.collapse)
  from index_fasta_idempotent[OF a l t f] show ?thesis
    by (auto simp: demo_pipeline_def)
qed

text \<open>
  The claim as worded fails when the log file is the index path: the second call appends
  its message to the index that the first call left.
\<close>

theorem index_fasta_idempotent_counterexample:
  "files (snd (index_fasta (demo_env faidx_tools)
                 ((demo_pipeline ''out.fa'')\<lparr>log_file := ''ref.fa.fai''\<rparr>))) ''ref.fa.fai'' =
     Some ''index'' \<and>
   files (snd (index_fasta (demo_env faidx_tools)
                 (snd (index_fasta (demo_env faidx_tools)
                         ((demo_pipeline ''out.fa'')\<lparr>log_file := ''ref.fa.fai''\<rparr>)))))
     ''ref.fa.fai'' =
     Some (''index[12:00] FASTA index already exists: ref.fa.fai'' @ [LF])"
  by (simp add: index_fasta_def run_command_def spawn_def log_def demo_env_def faidx_tools_def
        demo_pipeline_def Let_def)

section \<open>The validator\<close>


lemma get_file_stats_missing:
  "fs p = None \<Longrightarrow> get_file_stats E fs p = Inl (FileNotFoundError p)"
  by (simp add: get_file_stats_def)

lemma get_file_stats_present:
  "fs p \<noteq> None \<Longrightarrow> \<exists>s. get_file_stats E fs p = Inr s"
  by (auto simp: get_file_stats_def split: prod.splits)

lemma get_file_stats_Inr_exists:
  "get_file_stats E fs p = Inr s \<Longrightarrow> \<exists>content. fs p = Some content"
  by (cases "fs p") (simp_all add: get_file_stats_def)

lemma get_file_stats_Inl:
  "get_file_stats E fs p = Inl e \<Longrightarrow> e = FileNotFoundError p \<and> fs p = None"
  by (cases "fs p") (auto simp: get_file_stats_def split: prod.splits)

lemma log_stats_fields [simp]:
  "fasta_path (log_stats E s st) = fasta_path st"
  "vcf_path (log_stats E s st) = vcf_path st"
  "output_path (log_stats E s st) = output_path st"
  "log_file (log_stats E s st) = log_file st"
  "spawned (log_stats E s st) = spawned st"
  "messages (log_stats E s st) =
     messages st @ [''  Number of sequences: '' @ str_int (num_sequences s),
                    ''  Total length: '' @ fmt_commas (total_length s) @ '' bp'',
                    ''  MD5 checksum: '' @ (case md5 s of None \<Rightarrow> ''None'' | Some h \<Rightarrow> h)]"
  by (simp_all add: log_stats_def)

lemma files_log_stats_other [simp]:
  "p \<noteq> log_file st \<Longrightarrow> files (log_stats E s st) p = files st p"
  by (simp add: log_stats_def)

lemma files_log_stats_None [simp]:
  "files (log_stats E s st) p = None \<longleftrightarrow> files st p = None \<and> p \<noteq> log_file st"
  by (auto simp: log_stats_def)



lemma run_checks_messages:
  assumes "log_file st \<noteq> output_path st"
  shows "messages (snd (run_checks E input_stats output_stats st)) =
           messages st @ [LF # ''Validation checks:''] @
           [if num_sequences input_stats = num_sequences output_stats
            then ''  '' @ check_mark @ '' Number of sequences matches''
            else ''  '' @ cross_mark @ '' WARNING: Number of sequences differs!'',
            if md5 input_stats \<noteq> md5 output_stats
            then ''  '' @ check_mark @ '' Output differs from input (variants applied)''
            else ''  '' @ cross_mark @ '' WARNING: Output identical to input (no changes made?)'',
            if \<exists>content. files st (output_path st) = Some content \<and> content \<noteq> []
            then ''  '' @ check_mark @ '' Output file exists and has content''
            else ''  '' @ cross_mark @ '' ERROR: Output file is missing or empty!''] @
           [LF # ''  Length change: '' @
              fmt_signed_commas (total_length output_stats - total_length input_stats) @ '' bp'',
            LF # bar,
            if num_sequences input_stats = num_sequences output_stats \<and>
               md5 input_stats \<noteq> md5 output_stats \<and>
               (\<exists>content. files st (output_path st) = Some content \<and> content \<noteq> [])
            then check_mark @ '' VALIDATION PASSED''
            else cross_mark @ '' VALIDATION FAILED - Review warnings above'',
            bar @ [LF]]"
  using assms by (auto simp: run_checks_def Let_def split: option.splits)




lemma validate_output_cases:
  "validate_output E st =
     (case get_file_stats E
             (files (log E (LF # ''Input FASTA statistics:'')
                      (log E bar (log E ''VALIDATION REPORT'' (log E (LF # bar) st)))))
             (fasta_path st) of
        Inl e \<Rightarrow>
          (Inl e, log E (LF # ''Input FASTA statistics:'')
                    (log E bar (log E ''VALIDATION REPORT'' (log E (LF # bar) st))))
      | Inr i \<Rightarrow>
          (case get_file_stats E
                  (files (log E (LF # ''Output FASTA statistics:'')
                           (log_stats E i
                             (log E (LF # ''Input FASTA statistics:'')
                               (log E bar (log E ''VALIDATION REPORT'' (log E (LF # bar) st)))))))
                  (output_path st) of
             Inl e \<Rightarrow>
               (Inl e, log E (LF # ''Output FASTA statistics:'')
                         (log_stats E i
                           (log E (LF # ''Input FASTA statistics:'')
                             (log E bar (log E ''VALIDATION REPORT'' (log E (LF # bar) st))))))
           | Inr out \<Rightarrow>
               (Inr (fst (run_checks E i out
                       (log_stats E out
                         (log E (LF # ''Output FASTA statistics:'')
                           (log_stats E i
                             (log E (LF # ''Input FASTA statistics:'')
                               (log E bar (log E ''VALIDATION REPORT''
                                 (log E (LF # bar) st))))))))),
                snd (run_checks E i out
                       (log_stats E out
                         (log E (LF # ''Output FASTA statistics:'')
                           (log_stats E i
                             (log E (LF # ''Input FASTA statistics:'')
                               (log E bar (log E ''VALIDATION REPORT''
                                 (log E (LF # bar) st)))))))))))"
  by (simp add: validate_output_def Let_def split: prod.splits sum.splits)

lemma bar_Cons: "bar = CHR ''='' # replicate 59 CHR ''=''"
  by (simp add: bar_def numeral_eq_Suc)

lemma validate_output_rule3_failure:
  assumes lf: "log_file st \<noteq> output_path st"
      and v: "fst (validate_output E st) = Inr v"
      and m: "''  '' @ cross_mark @ '' ERROR: Output file is missing or empty!''
                \<in> set (drop (length (messages st)) (messages (snd (validate_output E st))))"
  shows "files st (output_path st) = Some []"
proof -
  let ?st1 = "log E (LF # ''Input FASTA statistics:'')
                (log E bar (log E ''VALIDATION REPORT'' (log E (LF # bar) st)))"
  obtain i where i: "get_file_stats E (files ?st1) (fasta_path st) = Inr i"
    using v by (cases "get_file_stats E (files ?st1) (fasta_path st)")
               (simp_all add: validate_output_cases)
  let ?st2 = "log E (LF # ''Output FASTA statistics:'') (log_stats E i ?st1)"
  obtain out where out: "get_file_stats E (files ?st2) (output_path st) = Inr out"
    using v i by (cases "get_file_stats E (files ?st2) (output_path st)")
                 (simp_all add: validate_output_cases)
  let ?S = "log_stats E out ?st2"
  have r: "snd (validate_output E st) = snd (run_checks E i out ?S)"
    by (simp add: validate_output_cases i out)
  have lf': "log_file ?S \<noteq> output_path ?S" using lf by simp
  from get_file_stats_Inr_exists[OF out] obtain content where
    c: "files ?st2 (output_path st) = Some content" by blast
  then have c0: "files st (output_path st) = Some content" using lf by simp
  have cS: "files ?S (output_path ?S) = Some content" using c0 lf by simp
  have "content = []"
  proof (rule ccontr)
    assume ne: "content \<noteq> []"
    have "''  '' @ cross_mark @ '' ERROR: Output file is missing or empty!''
            \<notin> set (drop (length (messages st)) (messages (snd (validate_output E st))))"
      unfolding r run_checks_messages[OF lf'] cS
      using ne by (simp add: cross_mark_def check_mark_def bar_Cons)
    with m show False by contradiction
  qed
  with c0 show ?thesis by simp
qed

lemma validate_output_output_missing:
  assumes lf: "log_file st \<noteq> output_path st"
      and none: "files st (output_path st) = None"
  shows "fst (validate_output E st) = Inl (FileNotFoundError (fasta_path st)) \<or>
         fst (validate_output E st) = Inl (FileNotFoundError (output_path st))"
    and "files st (fasta_path st) \<noteq> None \<Longrightarrow>
         fst (validate_output E st) = Inl (FileNotFoundError (output_path st))"
proof -
  let ?st1 = "log E (LF # ''Input FASTA statistics:'')
                (log E bar (log E ''VALIDATION REPORT'' (log E (LF # bar) st)))"
  have second: "fst (validate_output E st) = Inl (FileNotFoundError (output_path st))"
    if i: "get_file_stats E (files ?st1) (fasta_path st) = Inr i" for i
  proof -
    let ?st2 = "log E (LF # ''Output FASTA statistics:'') (log_stats E i ?st1)"
    have "files ?st2 (output_path st) = None" using lf none by simp
    then have "get_file_stats E (files ?st2) (output_path st) =
               Inl (FileNotFoundError (output_path st))"
      by (rule get_file_stats_missing)
    then show ?thesis by (simp add: validate_output_cases i)
  qed
  show "fst (validate_output E st) = Inl (FileNotFoundError (fasta_path st)) \<or>
        fst (validate_output E st) = Inl (FileNotFoundError (output_path st))"
  proof (cases "get_file_stats E (files ?st1) (fasta_path st)")
    case (Inl e)
    then have "e = FileNotFoundError (fasta_path st)" by (simp add: get_file_stats_Inl)
    with Inl show ?thesis by (simp add: validate_output_cases)
  next
    case (Inr i)
    then show ?thesis using second by blast
  qed
  show "fst (validate_output E st) = Inl (FileNotFoundError (output_path st))"
    if "files st (fasta_path st) \<noteq> None"
  proof -
    from that have "files ?st1 (fasta_path st) \<noteq> None" by simp
    from get_file_stats_present[of "files ?st1" "fasta_path st" E, OF this] obtain i where
      "get_file_stats E (files ?st1) (fasta_path st) = Inr i" by blast
    then show ?thesis by (rule second)
  qed
qed

text \<open>
  Claim C10, as the code has it. Let the log file not be the output path. When the output
  file does not exist, \<open>validate_output\<close> raises \<open>FileNotFoundError\<close> from
  \<open>get_file_stats\<close> (for the output path when the reference is there) and returns no
  verdict; and when it does return a verdict with rule 3 reported as failed, the output
  file exists and is empty.
\<close>

theorem validate_output_missing_output_raises:
  assumes "log_file st \<noteq> output_path st"
  shows "(files st (output_path st) = None \<longrightarrow>
            (fst (validate_output E st) = Inl (FileNotFoundError (fasta_path st)) \<or>
             fst (validate_output E st) = Inl (FileNotFoundError (output_path st))) \<and>
            (files st (fasta_path st) \<noteq> None \<longrightarrow>
             fst (validate_output E st) = Inl (FileNotFoundError (output_path st)))) \<and>
         (\<forall>v. fst (validate_output E st) = Inr v \<and>
              ''  '' @ cross_mark @ '' ERROR: Output file is missing or empty!''
                \<in> set (drop (length (messages st)) (messages (snd (validate_output E st)))) \<longrightarrow>
              files st (output_path st) = Some [])"
  using validate_output_output_missing[OF assms, of E]
        validate_output_rule3_failure[OF assms, of E]
  by blast

theorem validate_output_missing_output_raises_witness:
  "fst (validate_output (demo_env quiet_tools) (demo_pipeline ''out.fa'')) =
     Inl (FileNotFoundError ''out.fa'')"
proof -
  have a: "log_file (demo_pipeline ''out.fa'') \<noteq> output_path (demo_pipeline ''out.fa'')"
    by (simp add: demo_pipeline_def)
  from validate_output_missing_output_raises[OF a, of "demo_env quiet_tools"] show ?thesis
    by (simp add: demo_pipeline_def)
qed

text \<open>
  The claim as worded fails when the log file is the output path: the output file is not
  there when the validator starts, the first lines of the report create it, and the
  validator reads the report as a sequence file and returns a verdict.
\<close>

theorem validate_output_missing_output_raises_counterexample:
  "files ((demo_pipeline ''out.fa'')\<lparr>log_file := ''out.fa''\<rparr>) ''out.fa'' = None \<and>
   fst (validate_output (demo_env quiet_tools)
          ((demo_pipeline ''out.fa'')\<lparr>log_file := ''out.fa''\<rparr>)) = Inr False"
  by code_simp

section \<open>What a run leaves alone\<close>

lemma keeps_refl [simp]: "keeps E p st st"
  by (simp add: keeps_def)

lemma keeps_trans: "keeps E p a b \<Longrightarrow> keeps E p b c \<Longrightarrow> keeps E p a c"
  by (auto simp: keeps_def)

lemma keeps_log [simp]: "keeps E p st (log E m st)"
  by (simp add: keeps_def)

lemma keeps_log_trans: "keeps E p a b \<Longrightarrow> keeps E p a (log E m b)"
  by (rule keeps_trans[OF _ keeps_log])

lemma keeps_spawn: "keeps E p st (snd (spawn E cmd st))"
  by (auto simp: keeps_def spawn_def tools_keep_def split: outcome.splits)

lemma keeps_spawn_into:
  "p \<noteq> target \<Longrightarrow> keeps E p st (snd (spawn_into E cmd target st))"
  by (auto simp: keeps_def spawn_into_def tools_keep_def split: outcome.splits)
     (metis fun_upd_other)

lemma keeps_run_command: "keeps E p st (snd (run_command E cmd d st))"
proof -
  let ?st2 = "log E (''Command: '' @ join '' '' cmd) (log E (''Running: '' @ d) st)"
  have a: "keeps E p st ?st2" by (intro keeps_log_trans keeps_refl)
  have b: "keeps E p ?st2 (snd (spawn E cmd ?st2))" by (rule keeps_spawn)
  have c: "keeps E p (snd (spawn E cmd ?st2)) (snd (run_command E cmd d st))"
    by (cases "spawn E cmd ?st2")
       (auto simp: run_command_def split: option.splits prod.splits intro!: keeps_log_trans)
  from a b c show ?thesis by (blast intro: keeps_trans)
qed

lemma keeps_probe_tools: "keeps E p st (snd (probe_tools E ts missing st))"
proof (induction ts arbitrary: missing st)
  case Nil
  then show ?case by simp
next
  case (Cons tool rest)
  obtain r st1 where s: "spawn E [tool, ''--version''] st = (r, st1)"
    by (cases "spawn E [tool, ''--version''] st")
  have a: "keeps E p st st1" using keeps_spawn[of E p st "[tool, ''--version'']"] s by simp
  have b: "keeps E p st (snd (probe_tools E rest m (log E msg st1)))" for m msg
    by (rule keeps_trans[OF a keeps_trans[OF keeps_log Cons.IH]])
  show ?case
    by (cases r) (auto simp: s b)
qed

lemma keeps_check_dependencies: "keeps E p st (snd (check_dependencies E st))"
proof -
  have "keeps E p st (snd (probe_tools E required_tools [] (log E ''Checking dependencies...'' st)))"
    by (rule keeps_trans[OF keeps_log keeps_probe_tools])
  then show ?thesis
    by (auto simp: check_dependencies_def split: prod.splits)
qed

lemma keeps_index_fasta: "keeps E p st (snd (index_fasta E st))"
proof (cases "files st (fasta_path st @ ''.fai'') \<noteq> None")
  case True
  then show ?thesis by (simp add: index_fasta_def)
next
  case False
  have "keeps E p st (snd (run_command E [''samtools'', ''faidx'', fasta_path st]
          ''FASTA indexing'' (log E ''Indexing FASTA file...'' st)))"
    by (rule keeps_trans[OF keeps_log keeps_run_command])
  with False show ?thesis
    by (auto simp: index_fasta_def split: prod.splits sum.splits)
qed

lemma keeps_compress_vcf:
  assumes "p \<noteq> vcf_path st @ ''.gz''"
  shows "keeps E p st (snd (compress_vcf E st))"
proof -
  let ?st2 = "log E (''Command: bgzip -c '' @ vcf_path st @ '' > '' @ vcf_path st @ ''.gz'')
                (log E ''Compressing VCF file...'' st)"
  let ?sp = "spawn_into E [''bgzip'', ''-c'', vcf_path st] (vcf_path st @ ''.gz'') ?st2"
  have a: "keeps E p st ?st2" by (intro keeps_log_trans keeps_refl)
  have b: "keeps E p st (snd ?sp)"
    by (rule keeps_trans[OF a keeps_spawn_into[OF assms]])
  show ?thesis
    using b
    by (cases ?sp)
       (auto simp: compress_vcf_def Let_def split: option.splits prod.splits
             intro!: keeps_log_trans)
qed

lemma compress_vcf_path:
  "fst (compress_vcf E st) = Inr cv \<Longrightarrow>
     cv = (if endswith (vcf_path st) ''.gz'' then vcf_path st else vcf_path st @ ''.gz'')"
  by (auto simp: compress_vcf_def Let_def split: if_splits prod.splits option.splits)

lemma keeps_compress_and_index_vcf:
  assumes "p \<noteq> vcf_path st @ ''.gz''"
  shows "keeps E p st (snd (compress_and_index_vcf E st))"
proof -
  obtain r st1 where c: "compress_vcf E st = (r, st1)" by (cases "compress_vcf E st")
  have a: "keeps E p st st1" using keeps_compress_vcf[OF assms, of E] c by simp
  show ?thesis
  proof (cases r)
    case (Inl e)
    with a c show ?thesis by (simp add: compress_and_index_vcf_def)
  next
    case (Inr cv)
    have "keeps E p st1 (snd (run_command E [''tabix'', ''-p'', ''vcf'', cv] ''VCF indexing''
            (log E ''Indexing VCF file...'' st1)))"
      by (rule keeps_trans[OF keeps_log keeps_run_command])
    then have "keeps E p st1 (snd (compress_and_index_vcf E st))"
      by (auto simp: compress_and_index_vcf_def c Inr Let_def split: prod.splits sum.splits)
    with a show ?thesis by (rule keeps_trans)
  qed
qed

lemma compress_and_index_vcf_path:
  "fst (compress_and_index_vcf E st) = Inr cv \<Longrightarrow>
     cv = (if endswith (vcf_path st) ''.gz'' then vcf_path st else vcf_path st @ ''.gz'')"
proof -
  assume h: "fst (compress_and_index_vcf E st) = Inr cv"
  obtain r st1 where c: "compress_vcf E st = (r, st1)" by (cases "compress_vcf E st")
  from h c have "r = Inr cv"
    by (cases r) (auto simp: compress_and_index_vcf_def Let_def split: if_splits prod.splits sum.splits)
  with c compress_vcf_path[of E st cv] show ?thesis by simp
qed

lemma keeps_count_vcf_variants: "keeps E p st (snd (count_vcf_variants E vcf st))"
  using keeps_spawn[of E p st "[''bcftools'', ''view'', ''-H'', vcf]"]
  by (cases "spawn E [''bcftools'', ''view'', ''-H'', vcf] st")
     (auto simp: count_vcf_variants_def split: option.splits prod.splits)

lemma keeps_apply_variants:
  assumes "p \<noteq> output_path st"
  shows "keeps E p st (snd (apply_variants E cv st))"
proof -
  let ?st1 = "log E ''Applying variants to reference...'' st"
  let ?sp = "spawn_into E [''bcftools'', ''consensus'', ''-f'', fasta_path st, cv]
               (output_path st) ?st1"
  have "keeps E p st (snd ?sp)"
    by (rule keeps_trans[OF keeps_log keeps_spawn_into[OF assms]])
  then show ?thesis
    by (cases ?sp)
       (auto simp: apply_variants_def split: option.splits prod.splits intro!: keeps_log_trans)
qed

lemma keeps_log_stats [simp]: "keeps E p st (log_stats E s st)"
  by (simp add: keeps_def)

lemma keeps_run_checks: "keeps E p st (snd (run_checks E i out st))"
  by (simp add: run_checks_def Let_def keeps_def)

lemma keeps_validate_output: "keeps E p st (snd (validate_output E st))"
  by (auto simp: validate_output_cases split: sum.splits
           intro!: keeps_trans[OF _ keeps_run_checks] keeps_log_trans keeps_trans[OF _ keeps_log_stats])

lemma keeps_log_banner [simp]: "keeps E p st (log_banner E st)"
  by (simp add: keeps_def log_banner_def)

lemma steps_split:
  "steps E st =
     (case before_validation E st of
        (Inl e, s) \<Rightarrow> (Inl e, s)
      | (Inr u, s5) \<Rightarrow>
          (case validate_output E s5 of
             (Inl e, s6) \<Rightarrow> (Inl e, s6)
           | (Inr v, s6) \<Rightarrow>
               (Inr v, log E (''Output saved to: '' @ output_path s6)
                         (log E (LF # ''Pipeline completed successfully!'') s6))))"
  by (simp add: steps_def before_validation_def split: prod.splits sum.splits)

lemma keeps_before_validation:
  assumes o: "p \<noteq> output_path st" and z: "p \<noteq> vcf_path st @ ''.gz''"
  shows "keeps E p st (snd (before_validation E st))"
proof -
  let ?s0 = "log_banner E st"
  obtain r1 s1 where c1: "check_dependencies E ?s0 = (r1, s1)"
    by (cases "check_dependencies E ?s0")
  have k1: "keeps E p st s1"
    using keeps_trans[OF keeps_log_banner keeps_check_dependencies, of E p st] c1 by simp
  obtain r2 s2 where c2: "index_fasta E s1 = (r2, s2)" by (cases "index_fasta E s1")
  have k2: "keeps E p st s2"
    using keeps_trans[OF k1 keeps_index_fasta] c2 by simp
  have z2: "p \<noteq> vcf_path s2 @ ''.gz''" using z k2 by (simp add: keeps_def)
  obtain r3 s3 where c3: "compress_and_index_vcf E s2 = (r3, s3)"
    by (cases "compress_and_index_vcf E s2")
  have k3: "keeps E p st s3"
    using keeps_trans[OF k2 keeps_compress_and_index_vcf[OF z2]] c3 by simp
  show ?thesis
  proof (cases r1)
    case Inl
    with c1 k1 show ?thesis by (simp add: before_validation_def)
  next
    case a1: (Inr u1)
    show ?thesis
    proof (cases r2)
      case Inl
      with c1 a1 c2 k2 show ?thesis by (simp add: before_validation_def)
    next
      case a2: (Inr u2)
      show ?thesis
      proof (cases r3)
        case Inl
        with c1 a1 c2 a2 c3 k3 show ?thesis by (simp add: before_validation_def)
      next
        case a3: (Inr cv)
        obtain r4 s4 where c4: "count_vcf_variants E cv s3 = (r4, s4)"
          by (cases "count_vcf_variants E cv s3")
        have k4: "keeps E p st s4"
          using keeps_trans[OF k3 keeps_count_vcf_variants, of cv] c4 by simp
        show ?thesis
        proof (cases r4)
          case Inl
          with c1 a1 c2 a2 c3 a3 c4 k4 show ?thesis by (simp add: before_validation_def)
        next
          case a4: (Inr n)
          let ?s4 = "log E (LF # ''Number of variants in VCF: '' @ str_int n) s4"
          have k4': "keeps E p st ?s4" by (rule keeps_log_trans[OF k4])
          then have "p \<noteq> output_path ?s4" using o by (simp add: keeps_def)
          from keeps_trans[OF k4' keeps_apply_variants[OF this]]
          have "keeps E p st (snd (apply_variants E cv ?s4))" .
          with c1 a1 c2 a2 c3 a3 c4 a4 show ?thesis by (simp add: before_validation_def)
        qed
      qed
    qed
  qed
qed

lemma keeps_run_after:
  assumes "before_validation E st = (Inr u, s5)"
  shows "keeps E p s5 (snd (run E st))"
proof -
  obtain r s6 where v: "validate_output E s5 = (r, s6)" by (cases "validate_output E s5")
  have k: "keeps E p s5 s6" using keeps_validate_output[of E p s5] v by simp
  show ?thesis
    by (cases r) (auto simp: run_def steps_split assms v intro!: keeps_log_trans k)
qed

lemma keeps_run:
  assumes o: "p \<noteq> output_path st" and z: "p \<noteq> vcf_path st @ ''.gz''"
  shows "keeps E p st (snd (run E st))"
proof -
  obtain r s5 where b: "before_validation E st = (r, s5)" by (cases "before_validation E st")
  have k: "keeps E p st s5" using keeps_before_validation[OF o z, of E] b by simp
  show ?thesis
  proof (cases r)
    case (Inl e)
    with b show ?thesis
      by (auto simp: run_def steps_split intro!: keeps_log_trans k)
  next
    case (Inr u)
    with b keeps_run_after[of E st u s5 p] k show ?thesis
      by (blast intro: keeps_trans)
  qed
qed

lemma files_log_exists: "files st p \<noteq> None \<Longrightarrow> files (log E m st) p \<noteq> None"
  by simp

lemma compress_vcf_exists:
  assumes "files st (vcf_path st) \<noteq> None" and "fst (compress_vcf E st) = Inr cv"
  shows "files (snd (compress_vcf E st)) cv \<noteq> None"
proof (cases "endswith (vcf_path st) ''.gz''")
  case True
  with assms show ?thesis by (simp add: compress_vcf_def)
next
  case False
  show ?thesis
  proof (cases "files st (vcf_path st @ ''.gz'') \<noteq> None")
    case True
    with False assms show ?thesis by (simp add: compress_vcf_def Let_def)
  next
    case absent: False
    let ?st2 = "log E (''Command: bgzip -c '' @ vcf_path st @ '' > '' @ vcf_path st @ ''.gz'')
                  (log E ''Compressing VCF file...'' st)"
    show ?thesis
    proof (cases "tools E [''bgzip'', ''-c'', vcf_path st]
                    ((files ?st2)(vcf_path st @ ''.gz'' \<mapsto> []))")
      case NotFound
      with False absent assms show ?thesis
        by (simp add: compress_vcf_def Let_def spawn_into_def)
    next
      case (Exited rc out err fs')
      let ?st3 = "?st2\<lparr>files := fs'(vcf_path st @ ''.gz'' \<mapsto> out),
                       spawned := spawned ?st2 @ [([''bgzip'', ''-c'', vcf_path st], Some rc)]\<rparr>"
      have e: "files ?st3 (vcf_path st @ ''.gz'') \<noteq> None" by (simp del: not_None_eq)
      show ?thesis
      proof (cases "rc = 0")
        case True
        with False absent assms Exited have cv: "cv = vcf_path st @ ''.gz''"
          by (simp add: compress_vcf_def Let_def spawn_into_def)
        have "files (log E ''VCF compressed successfully''
                (if err \<noteq> [] \<and> py_strip err \<noteq> []
                 then log E (''bgzip stderr: '' @ err) ?st3 else ?st3))
                (vcf_path st @ ''.gz'') \<noteq> None"
          using e by (simp del: not_None_eq)
        with False absent Exited True cv show ?thesis
          by (simp add: compress_vcf_def Let_def spawn_into_def del: not_None_eq)
      next
        case nz: False
        with False absent assms Exited show ?thesis
          by (simp add: compress_vcf_def Let_def spawn_into_def)
      qed
    qed
  qed
qed

lemma compress_vcf_skips:
  "endswith (vcf_path st) ''.gz'' \<or> files st (vcf_path st @ ''.gz'') \<noteq> None \<Longrightarrow>
     spawned (snd (compress_vcf E st)) = spawned st"
  by (auto simp: compress_vcf_def Let_def)

lemma compress_vcf_spawns:
  assumes "\<not> endswith (vcf_path st) ''.gz''" and "files st (vcf_path st @ ''.gz'') = None"
  shows "map fst (spawned (snd (compress_vcf E st))) =
           map fst (spawned st) @ [[''bgzip'', ''-c'', vcf_path st]]"
  using assms
  by (simp add: compress_vcf_def Let_def spawn_into_def split: outcome.splits)

lemma compress_vcf_writes:
  assumes "\<not> endswith (vcf_path st) ''.gz''" and "files st (vcf_path st @ ''.gz'') = None"
      and "log_file st \<noteq> vcf_path st @ ''.gz''"
      and "tools E [''bgzip'', ''-c'', vcf_path st]
             ((files (log E (''Command: bgzip -c '' @ vcf_path st @ '' > '' @ vcf_path st @ ''.gz'')
                       (log E ''Compressing VCF file...'' st)))
                (vcf_path st @ ''.gz'' \<mapsto> [])) = Exited 0 out err fs'"
  shows "fst (compress_vcf E st) = Inr (vcf_path st @ ''.gz'')"
    and "files (snd (compress_vcf E st)) (vcf_path st @ ''.gz'') = Some out"
  using assms
  by (simp_all add: compress_vcf_def Let_def spawn_into_def)

lemma compress_and_index_vcf_after:
  assumes "fst (compress_vcf E st) = Inr cv"
  shows "compress_and_index_vcf E st =
           (if files (snd (compress_vcf E st)) (cv @ ''.tbi'') \<noteq> None
            then (Inr cv, log E (''VCF index already exists: '' @ cv @ ''.tbi'')
                            (snd (compress_vcf E st)))
            else (case run_command E [''tabix'', ''-p'', ''vcf'', cv] ''VCF indexing''
                         (log E ''Indexing VCF file...'' (snd (compress_vcf E st))) of
                    (Inl e, s) \<Rightarrow> (Inl e, s)
                  | (Inr r, s) \<Rightarrow> (Inr cv, s)))"
  using assms
  by (cases "compress_vcf E st") (simp add: compress_and_index_vcf_def Let_def)

lemma run_command_spawns:
  "map fst (spawned (snd (run_command E cmd d st))) = map fst (spawned st) @ [cmd]"
  by (simp add: run_command_cases Let_def split: outcome.splits)

lemma tabix_reused:
  assumes "fst (compress_vcf E st) = Inr cv"
      and "files (snd (compress_vcf E st)) (cv @ ''.tbi'') \<noteq> None"
  shows "spawned (snd (compress_and_index_vcf E st)) = spawned (snd (compress_vcf E st))"
  using assms(2) by (simp add: compress_and_index_vcf_after[OF assms(1)] del: not_None_eq)

lemma tabix_spawned:
  assumes "fst (compress_vcf E st) = Inr cv"
      and "files (snd (compress_vcf E st)) (cv @ ''.tbi'') = None"
  shows "map fst (spawned (snd (compress_and_index_vcf E st))) =
           map fst (spawned (snd (compress_vcf E st))) @ [[''tabix'', ''-p'', ''vcf'', cv]]"
proof -
  let ?s = "log E ''Indexing VCF file...'' (snd (compress_vcf E st))"
  have "spawned (snd (compress_and_index_vcf E st)) =
        spawned (snd (run_command E [''tabix'', ''-p'', ''vcf'', cv] ''VCF indexing'' ?s))"
    using assms(2)
    by (simp add: compress_and_index_vcf_after[OF assms(1)] split: prod.splits sum.splits)
  then show ?thesis
    by (simp add: run_command_spawns)
qed

lemma run_command_success_files:
  assumes "fst (run_command E cmd d st) = Inr r"
  shows "\<exists>out err fs' fs. tools E cmd fs = Exited 0 out err fs' \<and>
           (\<forall>p. fs' p \<noteq> None \<longrightarrow> files (snd (run_command E cmd d st)) p \<noteq> None)"
proof (cases "tools E cmd (files (log E (''Command: '' @ join '' '' cmd)
                                (log E (''Running: '' @ d) st)))")
  case NotFound
  with assms show ?thesis by (simp add: run_command_cases)
next
  case (Exited rc out err fs')
  with assms have z: "rc = 0" by (simp add: run_command_cases Let_def split: if_splits)
  have "\<forall>p. fs' p \<noteq> None \<longrightarrow> files (snd (run_command E cmd d st)) p \<noteq> None"
    using Exited z by (simp add: run_command_cases Let_def del: not_None_eq)
  with Exited z show ?thesis by blast
qed

lemma tabix_index_exists:
  assumes c: "fst (compress_and_index_vcf E st) = Inr cv"
      and t: "\<forall>fs out err fs'. tools E [''tabix'', ''-p'', ''vcf'', cv] fs = Exited 0 out err fs' \<longrightarrow>
                fs' (cv @ ''.tbi'') \<noteq> None"
  shows "files (snd (compress_and_index_vcf E st)) (cv @ ''.tbi'') \<noteq> None"
proof -
  obtain r s1 where cv: "compress_vcf E st = (r, s1)" by (cases "compress_vcf E st")
  from c cv have r: "r = Inr cv"
    by (cases r) (auto simp: compress_and_index_vcf_def Let_def split: if_splits prod.splits sum.splits)
  then have f: "fst (compress_vcf E st) = Inr cv" using cv by simp
  show ?thesis
  proof (cases "files (snd (compress_vcf E st)) (cv @ ''.tbi'') \<noteq> None")
    case True
    then show ?thesis
      by (simp add: compress_and_index_vcf_after[OF f] del: not_None_eq)
  next
    case False
    let ?s = "log E ''Indexing VCF file...'' (snd (compress_vcf E st))"
    obtain rr ss where rc: "run_command E [''tabix'', ''-p'', ''vcf'', cv] ''VCF indexing'' ?s = (rr, ss)"
      by (cases "run_command E [''tabix'', ''-p'', ''vcf'', cv] ''VCF indexing'' ?s")
    from c False rc obtain r0 where rr: "rr = Inr r0"
      by (cases rr) (simp_all add: compress_and_index_vcf_after[OF f])
    have e: "compress_and_index_vcf E st = (Inr cv, ss)"
      using False rc rr by (simp add: compress_and_index_vcf_after[OF f])
    from run_command_success_files[of E "[''tabix'', ''-p'', ''vcf'', cv]" "''VCF indexing''" ?s r0]
         rc rr t
    have "files ss (cv @ ''.tbi'') \<noteq> None" by fastforce
    with e show ?thesis by simp
  qed
qed

lemma hts_tools_keep: "tools_keep (demo_env hts_tools) ''v.vcf''"
proof -
  have "x @ ''.tbi'' \<noteq> ''v.vcf''" for x :: string
  proof
    assume "x @ ''.tbi'' = ''v.vcf''"
    then have "last (x @ ''.tbi'') = last ''v.vcf''" by simp
    then show False by simp
  qed
  then show ?thesis
    by (auto simp: tools_keep_def demo_env_def hts_tools_def split: if_splits)
qed

text \<open>
  Claim C9, as the code has it. When the output path and the log file are not the variant
  file and no external tool changes it, the variant file has the same content after
  \<open>compress_and_index_vcf\<close> and after the whole \<open>run\<close> as before. The compressed file
  that \<open>compress_and_index_vcf\<close> returns is the variant file itself when its name ends in
  \<open>.gz\<close> and else the path of the variant file followed by \<open>.gz\<close>, and when the
  compression step returns it a file is there. Compression: when the name does not end in
  \<open>.gz\<close> and no file is at the path followed by \<open>.gz\<close>, the step runs
  \<open>bgzip -c\<close> on the variant file, once, and when that exits 0 and the log file is not
  the compressed path, the file at the compressed path holds exactly what the tool printed;
  otherwise the step runs nothing. Indexing: when no file is at the compressed path
  followed by \<open>.tbi\<close>, \<open>tabix -p vcf\<close> is run on the compressed file, once, and
  otherwise nothing is run; when \<open>compress_and_index_vcf\<close> returns and \<open>tabix\<close>
  writes that index whenever it exits 0, the index is there afterwards.
\<close>

theorem run_keeps_variant_file:
  "(output_path st \<noteq> vcf_path st \<and> log_file st \<noteq> vcf_path st \<and> tools_keep E (vcf_path st) \<longrightarrow>
      files (snd (run E st)) (vcf_path st) = files st (vcf_path st) \<and>
      files (snd (compress_and_index_vcf E st)) (vcf_path st) = files st (vcf_path st)) \<and>
   (\<forall>cv. fst (compress_and_index_vcf E st) = Inr cv \<longrightarrow>
         cv = (if endswith (vcf_path st) ''.gz'' then vcf_path st else vcf_path st @ ''.gz'')) \<and>
   (\<forall>cv. files st (vcf_path st) \<noteq> None \<and> fst (compress_vcf E st) = Inr cv \<longrightarrow>
         files (snd (compress_vcf E st)) cv \<noteq> None) \<and>
   (\<not> endswith (vcf_path st) ''.gz'' \<and> files st (vcf_path st @ ''.gz'') = None \<longrightarrow>
      map fst (spawned (snd (compress_vcf E st))) =
        map fst (spawned st) @ [[''bgzip'', ''-c'', vcf_path st]] \<and>
      (\<forall>out err fs'.
         log_file st \<noteq> vcf_path st @ ''.gz'' \<and>
         tools E [''bgzip'', ''-c'', vcf_path st]
           ((files (log E (''Command: bgzip -c '' @ vcf_path st @ '' > '' @ vcf_path st @ ''.gz'')
                     (log E ''Compressing VCF file...'' st)))
              (vcf_path st @ ''.gz'' \<mapsto> [])) = Exited 0 out err fs' \<longrightarrow>
         fst (compress_vcf E st) = Inr (vcf_path st @ ''.gz'') \<and>
         files (snd (compress_vcf E st)) (vcf_path st @ ''.gz'') = Some out)) \<and>
   (endswith (vcf_path st) ''.gz'' \<or> files st (vcf_path st @ ''.gz'') \<noteq> None \<longrightarrow>
      spawned (snd (compress_vcf E st)) = spawned st) \<and>
   (\<forall>cv. fst (compress_vcf E st) = Inr cv \<longrightarrow>
      (files (snd (compress_vcf E st)) (cv @ ''.tbi'') = None \<longrightarrow>
         map fst (spawned (snd (compress_and_index_vcf E st))) =
           map fst (spawned (snd (compress_vcf E st))) @ [[''tabix'', ''-p'', ''vcf'', cv]]) \<and>
      (files (snd (compress_vcf E st)) (cv @ ''.tbi'') \<noteq> None \<longrightarrow>
         spawned (snd (compress_and_index_vcf E st)) = spawned (snd (compress_vcf E st)))) \<and>
   (\<forall>cv. fst (compress_and_index_vcf E st) = Inr cv \<and>
         (\<forall>fs out err fs'. tools E [''tabix'', ''-p'', ''vcf'', cv] fs = Exited 0 out err fs' \<longrightarrow>
                fs' (cv @ ''.tbi'') \<noteq> None) \<longrightarrow>
         files (snd (compress_and_index_vcf E st)) (cv @ ''.tbi'') \<noteq> None)"
proof -
  have 1: "files (snd (run E st)) (vcf_path st) = files st (vcf_path st) \<and>
           files (snd (compress_and_index_vcf E st)) (vcf_path st) = files st (vcf_path st)"
    if a: "output_path st \<noteq> vcf_path st \<and> log_file st \<noteq> vcf_path st \<and> tools_keep E (vcf_path st)"
  proof -
    have z: "vcf_path st \<noteq> vcf_path st @ ''.gz''" by simp
    have o: "vcf_path st \<noteq> output_path st" using a by auto
    from keeps_run[OF o z, of E] keeps_compress_and_index_vcf[OF z, of E] a show ?thesis
      by (auto simp: keeps_def)
  qed
  note 2 = compress_and_index_vcf_path[of E st]
  note 3 = compress_vcf_exists[of st E]
  note 4 = compress_vcf_spawns[of st E] compress_vcf_writes[of st E]
  note 5 = compress_vcf_skips[of st E]
  note 6 = tabix_spawned[of E st] tabix_reused[of E st]
  note 7 = tabix_index_exists[of E st]
  show ?thesis
    apply (intro conjI allI impI)
    subgoal using 1 by blast
    subgoal using 1 by blast
    subgoal using 2 by blast
    subgoal using 3 by blast
    subgoal using 4(1) by blast
    subgoal using 4(2) by blast
    subgoal using 4(3) by blast
    subgoal using 5 by blast
    subgoal using 6(1) by blast
    subgoal using 6(2) by blast
    subgoal using 7 by blast
    done
qed

theorem run_keeps_variant_file_witness:
  "files (snd (run (demo_env hts_tools) (demo_pipeline ''out.fa''))) ''v.vcf'' =
     Some (''chr1 5 . A G'' @ [LF]) \<and>
   fst (compress_vcf (demo_env hts_tools) (demo_pipeline ''out.fa'')) = Inr ''v.vcf.gz'' \<and>
   files (snd (compress_vcf (demo_env hts_tools) (demo_pipeline ''out.fa''))) ''v.vcf.gz'' =
     Some ''BGZF'' \<and>
   map fst (spawned (snd (compress_and_index_vcf (demo_env hts_tools) (demo_pipeline ''out.fa'')))) =
     [[''bgzip'', ''-c'', ''v.vcf''], [''tabix'', ''-p'', ''vcf'', ''v.vcf.gz'']] \<and>
   files (snd (compress_and_index_vcf (demo_env hts_tools) (demo_pipeline ''out.fa'')))
     ''v.vcf.gz.tbi'' \<noteq> None \<and>
   spawned (snd (compress_vcf (demo_env hts_tools)
     ((demo_pipeline ''out.fa'')\<lparr>files := (files (demo_pipeline ''out.fa''))(''v.vcf.gz'' \<mapsto> ''BGZF'')\<rparr>))) = []"
proof -
  let ?E = "demo_env hts_tools"
  let ?st = "demo_pipeline ''out.fa''"
  let ?st2 = "?st\<lparr>files := (files ?st)(''v.vcf.gz'' \<mapsto> ''BGZF'')\<rparr>"
  note th = run_keeps_variant_file[of ?st ?E]
  have p: "vcf_path ?st = ''v.vcf''" "output_path ?st = ''out.fa''" "log_file ?st = ''run.log''"
          "files ?st ''v.vcf'' = Some (''chr1 5 . A G'' @ [LF])" "files ?st ''v.vcf.gz'' = None"
          "spawned ?st = []"
    by (simp_all add: demo_pipeline_def)
  have e: "\<not> endswith ''v.vcf'' ''.gz''" by (simp add: endswith_def)
  have a: "files (snd (run ?E ?st)) ''v.vcf'' = Some (''chr1 5 . A G'' @ [LF])"
    using th hts_tools_keep by (simp add: p)
  have t: "tools ?E [''bgzip'', ''-c'', ''v.vcf''] fs = Exited 0 ''BGZF'' [] fs" for fs
    by (simp add: demo_env_def hts_tools_def program_def)
  have tt: "tools ?E [''tabix'', ''-p'', ''vcf'', ''v.vcf.gz''] fs =
              Exited 0 [] [] (fs(''v.vcf.gz.tbi'' \<mapsto> ''TBI''))" for fs
    by (simp add: demo_env_def hts_tools_def program_def)
  have b: "fst (compress_vcf ?E ?st) = Inr ''v.vcf.gz'' \<and>
           files (snd (compress_vcf ?E ?st)) ''v.vcf.gz'' = Some ''BGZF''"
    using th e t by (simp add: p)
  have s1: "map fst (spawned (snd (compress_vcf ?E ?st))) = [[''bgzip'', ''-c'', ''v.vcf'']]"
    using th e by (simp add: p)
  have n: "files (snd (compress_vcf ?E ?st)) ''v.vcf.gz.tbi'' = None"
    using e by (simp add: compress_vcf_def Let_def spawn_into_def t p demo_pipeline_def)
  have s2: "map fst (spawned (snd (compress_and_index_vcf ?E ?st))) =
            [[''bgzip'', ''-c'', ''v.vcf''], [''tabix'', ''-p'', ''vcf'', ''v.vcf.gz'']]"
    using th b n s1 by simp
  have c: "fst (compress_and_index_vcf ?E ?st) = Inr ''v.vcf.gz''"
    using n
    by (simp add: compress_and_index_vcf_after[OF conjunct1[OF b]] run_command_cases Let_def tt
             split: prod.splits)
  have k: "\<forall>fs out err fs'. tools ?E [''tabix'', ''-p'', ''vcf'', ''v.vcf.gz''] fs = Exited 0 out err fs' \<longrightarrow>
             fs' (''v.vcf.gz'' @ ''.tbi'') \<noteq> None"
    by (auto simp: tt)
  have i: "files (snd (compress_and_index_vcf ?E ?st)) ''v.vcf.gz.tbi'' \<noteq> None"
    using th[THEN conjunct2, THEN conjunct2, THEN conjunct2, THEN conjunct2, THEN conjunct2,
             THEN conjunct2, THEN spec, of "''v.vcf.gz''"] c k
    by (simp del: not_None_eq)
  have j: "spawned (snd (compress_vcf ?E ?st2)) = []"
    using run_keeps_variant_file[of ?st2 ?E] by (simp add: demo_pipeline_def)
  from a b s2 i j show ?thesis by blast
qed

section \<open>Runs with tools that always succeed\<close>

lemma printing_spawn:
  assumes "\<And>cmd fs. tools E cmd fs = Exited 0 out [] (g fs)"
  shows "spawn E cmd st =
           (Some (0, out, []),
            st\<lparr>files := g (files st), spawned := spawned st @ [(cmd, Some 0)]\<rparr>)"
  by (simp add: spawn_def assms)

lemma printing_spawn_into:
  assumes "\<And>cmd fs. tools E cmd fs = Exited 0 out [] (g fs)"
  shows "spawn_into E cmd target st =
           (Some (0, []), st\<lparr>files := (g ((files st)(target \<mapsto> [])))(target \<mapsto> out),
                              spawned := spawned st @ [(cmd, Some 0)]\<rparr>)"
  by (simp add: spawn_into_def assms)

lemma printing_run_command:
  assumes "\<And>cmd fs. tools E cmd fs = Exited 0 out [] (g fs)"
  shows "fst (run_command E cmd d st) = Inr (CompletedProcess cmd 0 out [])"
  by (simp add: run_command_def printing_spawn[OF assms])

lemma printing_probe_tools:
  assumes "\<And>cmd fs. tools E cmd fs = Exited 0 out [] (g fs)"
  shows "fst (probe_tools E ts missing st) = missing"
  by (induction ts arbitrary: missing st) (simp_all add: printing_spawn[OF assms])

lemma printing_check_dependencies:
  assumes "\<And>cmd fs. tools E cmd fs = Exited 0 out [] (g fs)"
  shows "fst (check_dependencies E st) = Inr ()"
proof -
  obtain m s where p: "probe_tools E required_tools [] (log E ''Checking dependencies...'' st) = (m, s)"
    by (cases "probe_tools E required_tools [] (log E ''Checking dependencies...'' st)")
  with printing_probe_tools[OF assms, of required_tools "[]" "log E ''Checking dependencies...'' st"]
  have "m = []" by simp
  with p show ?thesis by (simp add: check_dependencies_def)
qed

lemma printing_index_fasta:
  assumes "\<And>cmd fs. tools E cmd fs = Exited 0 out [] (g fs)"
  shows "fst (index_fasta E st) = Inr ()"
  using printing_run_command[OF assms, of "[''samtools'', ''faidx'', fasta_path st]"
          "''FASTA indexing''" "log E ''Indexing FASTA file...'' st"]
  by (auto simp: index_fasta_def Let_def split: prod.splits sum.splits)

lemma printing_compress_and_index_vcf:
  assumes "\<And>cmd fs. tools E cmd fs = Exited 0 out [] (g fs)"
  shows "\<exists>cv. fst (compress_and_index_vcf E st) = Inr cv"
proof -
  have "\<exists>cv. fst (compress_vcf E st) = Inr cv"
    by (simp add: compress_vcf_def Let_def printing_spawn_into[OF assms])
  then obtain cv s1 where c: "compress_vcf E st = (Inr cv, s1)"
    by (cases "compress_vcf E st") auto
  show ?thesis
    using printing_run_command[OF assms, of "[''tabix'', ''-p'', ''vcf'', cv]"
            "''VCF indexing''" "log E ''Indexing VCF file...'' s1"]
    by (auto simp: compress_and_index_vcf_def c Let_def split: prod.splits sum.splits)
qed

lemma printing_count_vcf_variants:
  assumes "\<And>cmd fs. tools E cmd fs = Exited 0 out [] (g fs)"
  shows "\<exists>n. fst (count_vcf_variants E cv st) = Inr n"
  by (simp add: count_vcf_variants_def printing_spawn[OF assms])

lemma printing_apply_variants:
  assumes "\<And>cmd fs. tools E cmd fs = Exited 0 out [] (g fs)"
  shows "fst (apply_variants E cv st) = Inr ()"
    and "files (snd (apply_variants E cv st)) (output_path st) = Some out"
    and "files (snd (apply_variants E cv st)) =
           (g ((files (log E ''Applying variants to reference...'' st))(output_path st \<mapsto> [])))
             (output_path st \<mapsto> out)"
  by (simp_all add: apply_variants_def printing_spawn_into[OF assms])

lemma printing_before_validation:
  assumes T: "\<And>cmd fs. tools E cmd fs = Exited 0 out [] (g fs)"
  shows "fst (before_validation E st) = Inr ()"
    and "files (snd (before_validation E st)) (output_path st) = Some out"
    and "\<exists>fs. files (snd (before_validation E st)) = (g fs)(output_path st \<mapsto> out)"
proof -
  let ?s0 = "log_banner E st"
  obtain s1 where c1: "check_dependencies E ?s0 = (Inr (), s1)"
    using printing_check_dependencies[OF T, of ?s0] by (cases "check_dependencies E ?s0") simp
  obtain s2 where c2: "index_fasta E s1 = (Inr (), s2)"
    using printing_index_fasta[OF T, of s1] by (cases "index_fasta E s1") simp
  obtain cv s3 where c3: "compress_and_index_vcf E s2 = (Inr cv, s3)"
    using printing_compress_and_index_vcf[OF T, of s2]
    by (cases "compress_and_index_vcf E s2") auto
  obtain n s4 where c4: "count_vcf_variants E cv s3 = (Inr n, s4)"
    using printing_count_vcf_variants[OF T, of cv s3]
    by (cases "count_vcf_variants E cv s3") auto
  let ?s4 = "log E (LF # ''Number of variants in VCF: '' @ str_int n) s4"
  have b: "before_validation E st = apply_variants E cv ?s4"
    by (simp add: before_validation_def c1 c2 c3 c4)
  have "keeps E [] st s1"
    using keeps_trans[OF keeps_log_banner keeps_check_dependencies, of E "[]" st] c1 by simp
  moreover have "keeps E [] s1 s2" using keeps_index_fasta[of E "[]" s1] c2 by simp
  moreover have "keeps E [] s2 s3"
    using keeps_compress_and_index_vcf[of "[]" s2 E] c3 by simp
  moreover have "keeps E [] s3 s4" using keeps_count_vcf_variants[of E "[]" s3 cv] c4 by simp
  ultimately have o: "output_path s4 = output_path st"
    by (simp add: keeps_def)
  show "fst (before_validation E st) = Inr ()"
    by (simp add: b printing_apply_variants(1)[OF T])
  show "files (snd (before_validation E st)) (output_path st) = Some out"
    using printing_apply_variants(2)[OF T, of cv ?s4] by (simp add: b o)
  show "\<exists>fs. files (snd (before_validation E st)) = (g fs)(output_path st \<mapsto> out)"
    using printing_apply_variants(3)[OF T, of cv ?s4] by (auto simp: b o)
qed

lemma paths_before_validation:
  "fasta_path (snd (before_validation E st)) = fasta_path st"
  "vcf_path (snd (before_validation E st)) = vcf_path st"
  "output_path (snd (before_validation E st)) = output_path st"
  "log_file (snd (before_validation E st)) = log_file st"
proof -
  let ?p = "CHR ''x'' # output_path st @ vcf_path st @ ''.gz''"
  have "length ?p \<noteq> length (output_path st)" "length ?p \<noteq> length (vcf_path st @ ''.gz'')"
    by simp_all
  then have "?p \<noteq> output_path st" "?p \<noteq> vcf_path st @ ''.gz''"
    by fastforce+
  from keeps_before_validation[OF this, of E]
  show "fasta_path (snd (before_validation E st)) = fasta_path st"
       "vcf_path (snd (before_validation E st)) = vcf_path st"
       "output_path (snd (before_validation E st)) = output_path st"
       "log_file (snd (before_validation E st)) = log_file st"
    by (simp_all add: keeps_def)
qed

lemma printing_run_output:
  assumes T: "\<And>cmd fs. tools E cmd fs = Exited 0 out [] fs"
      and lf: "log_file st \<noteq> output_path st"
  shows "files (snd (run E st)) (output_path st) = Some out"
proof -
  obtain s5 where b: "before_validation E st = (Inr (), s5)"
    using printing_before_validation(1)[OF T, of st] by (cases "before_validation E st") simp
  have f: "files s5 (output_path st) = Some out"
    using printing_before_validation(2)[OF T, of st] b by simp
  have l: "log_file s5 = log_file st" using paths_before_validation(4)[of E st] b by simp
  have k: "tools_keep E (output_path st)" by (simp add: tools_keep_def T)
  from keeps_run_after[OF b, of "output_path st"] k l lf f show ?thesis
    by (simp add: keeps_def)
qed

text \<open>
  The claim as worded fails when the output path is the variant file: the run, every tool
  succeeding, ends with the consensus text where the variants were.
\<close>

theorem run_keeps_variant_file_counterexample:
  "vcf_path (demo_pipeline ''v.vcf'') = ''v.vcf'' \<and>
   files (demo_pipeline ''v.vcf'') ''v.vcf'' = Some (''chr1 5 . A G'' @ [LF]) \<and>
   files (snd (run (demo_env (printing_tools (''>s'' @ [LF] @ ''ACGA'' @ [LF])))
                  (demo_pipeline ''v.vcf''))) ''v.vcf'' =
     Some (''>s'' @ [LF] @ ''ACGA'' @ [LF])"
proof -
  have T: "\<And>cmd fs. tools (demo_env (printing_tools (''>s'' @ [LF] @ ''ACGA'' @ [LF]))) cmd fs =
             Exited 0 (''>s'' @ [LF] @ ''ACGA'' @ [LF]) [] fs"
    by (simp add: demo_env_def printing_tools_def)
  have lf: "log_file (demo_pipeline ''v.vcf'') \<noteq> output_path (demo_pipeline ''v.vcf'')"
    by (simp add: demo_pipeline_def)
  from printing_run_output[OF T lf] show ?thesis
    by (simp add: demo_pipeline_def)
qed

section \<open>What a run returns and what it raises\<close>








end
